theory Spec2Isabelle
  imports Main "HOL-Library.Word"
begin

unbundle bit_operations_syntax

section \<open>Machine integers, byte strings and errors\<close>

type_synonym u8 = "8 word"
type_synonym u16 = "16 word"
type_synonym u32 = "32 word"
type_synonym u64 = "64 word"

text \<open>A \<open>bstr\<close> is a sequence of bytes; a \<open>std::string\<close> is a sequence of chars.\<close>

type_synonym bstr = "u8 list"

text \<open>
  The exceptions the decoder can meet. \<open>EofError\<close> is raised by the byte stream when a
  read, skip or seek leaves the data; \<open>CorruptDataError\<close> is thrown by
  \<open>RvaHelper::section_for_rva\<close>; \<open>EncodingError\<close> stands for a failure of the text
  transcoder.
\<close>

datatype error = EofError | CorruptDataError | EncodingError

section \<open>Section headers and the address translator\<close>

text \<open>
  \<open>struct ImageSectionHeader\<close>. The field \<open>physical_address\<close> of the source is declared
  but never assigned by the constructor, so it is not part of the model. Fields whose
  names are shared by several structs of the source carry the struct's name in front
  (\<open>section_name\<close>, \<open>section_virtual_address\<close>, \<open>section_characteristics\<close>).
\<close>

record ImageSectionHeader =
  section_name :: string
  virtual_size :: u32
  section_virtual_address :: u32
  size_of_raw_data :: u32
  pointer_to_raw_data :: u32
  pointer_to_relocations :: u32
  pointer_to_line_numbers :: u32
  number_of_relocations :: u16
  number_of_line_numbers :: u16
  section_characteristics :: u32

text \<open>\<open>class RvaHelper\<close>: its three members.\<close>

record RvaHelper =
  file_alignment :: u32
  section_alignment :: u32
  sections :: "ImageSectionHeader list"

text \<open>
  \<open>RvaHelper::section_for_rva\<close>: the \<open>for\<close> loop over the sections returns the first
  section that passes the test; the \<open>throw\<close> after the loop is the \<open>Inl\<close>. The sum
  \<open>virtual_address + virtual_size\<close> is a \<open>u32\<close> sum and wraps.
\<close>

fun section_for_rva_loop :: "ImageSectionHeader list \<Rightarrow> u32 \<Rightarrow> error + ImageSectionHeader" where
  "section_for_rva_loop [] rva = Inl CorruptDataError"
| "section_for_rva_loop (section # rest) rva =
     (if rva \<ge> section_virtual_address section
         \<and> rva < section_virtual_address section + virtual_size section
      then Inr section
      else section_for_rva_loop rest rva)"

definition section_for_rva :: "RvaHelper \<Rightarrow> u32 \<Rightarrow> error + ImageSectionHeader" where
  "section_for_rva h rva = section_for_rva_loop (sections h) rva"

text \<open>\<open>RvaHelper::adjust_file_alignment\<close>.\<close>

definition adjust_file_alignment :: "RvaHelper \<Rightarrow> u32 \<Rightarrow> u32" where
  "adjust_file_alignment h offset =
     (if file_alignment h < 0x200 then offset else (offset div 0x200) * 0x200)"

text \<open>
  \<open>RvaHelper::adjust_section_alignment\<close>. The C++ condition
  \<open>fixed_alignment && (offset % fixed_alignment)\<close> tests the divisor first, so the
  remainder is only taken by a non-zero divisor.
\<close>

definition adjust_section_alignment :: "RvaHelper \<Rightarrow> u32 \<Rightarrow> u32" where
  "adjust_section_alignment h offset =
     (let fixed_alignment =
        (if section_alignment h < 0x1000 then file_alignment h else section_alignment h)
      in if fixed_alignment \<noteq> 0 \<and> offset mod fixed_alignment \<noteq> 0
         then fixed_alignment * (offset div fixed_alignment)
         else offset)"

text \<open>\<open>RvaHelper::rva_to_offset\<close>: \<open>u32\<close> arithmetic, so sum and difference wrap.\<close>

definition rva_to_offset :: "RvaHelper \<Rightarrow> u32 \<Rightarrow> error + u32" where
  "rva_to_offset h rva =
     (case section_for_rva h rva of
        Inl e \<Rightarrow> Inl e
      | Inr section \<Rightarrow>
          Inr (rva
               + adjust_file_alignment h (pointer_to_raw_data section)
               - adjust_section_alignment h (section_virtual_address section)))"


text \<open>Example data for the closed theorems.\<close>

definition example_section :: ImageSectionHeader where
  "example_section =
     \<lparr>section_name = ''.rsrc'', virtual_size = 0x1000, section_virtual_address = 0x2000,
      size_of_raw_data = 0x1000, pointer_to_raw_data = 0x3FF, pointer_to_relocations = 0,
      pointer_to_line_numbers = 0, number_of_relocations = 0, number_of_line_numbers = 0,
      section_characteristics = 0\<rparr>"

definition example_helper :: "u32 \<Rightarrow> u32 \<Rightarrow> RvaHelper" where
  "example_helper fa sa =
     \<lparr>file_alignment = fa, section_alignment = sa, sections = [example_section]\<rparr>"

section \<open>The byte stream\<close>

text \<open>
  Modelled from the spec: the byte-stream abstraction (\<open>io::IStream\<close>) is not among the
  sources. The specification gives it an absolute \<open>seek\<close>, \<open>tell\<close>, \<open>read(n)\<close>, typed
  little-endian reads, \<open>skip(n)\<close> and a scoped \<open>peek\<close>, and makes exhausting the stream
  before a structure is fully read a failure. A stream is its data and a cursor; an
  operation that would leave the data fails with \<open>EofError\<close> and leaves the cursor
  where it was.
\<close>

record istream =
  stream_data :: bstr
  stream_pos :: nat

text \<open>
  A stream operation returns its value or the exception, and the stream after it. The
  state is any extension of \<open>istream\<close>, so that the same operations run on the state of
  the resource crawler.
\<close>

definition io_return :: "'a \<Rightarrow> 's \<Rightarrow> (error + 'a) \<times> 's" where
  "io_return x s = (Inr x, s)"

definition io_bind ::
  "('s \<Rightarrow> (error + 'a) \<times> 's) \<Rightarrow> ('a \<Rightarrow> 's \<Rightarrow> (error + 'b) \<times> 's) \<Rightarrow> 's \<Rightarrow> (error + 'b) \<times> 's" where
  "io_bind m f s = (case m s of (Inl e, s') \<Rightarrow> (Inl e, s') | (Inr x, s') \<Rightarrow> f x s')"

definition io_throw :: "error \<Rightarrow> 's \<Rightarrow> (error + 'a) \<times> 's" where
  "io_throw e s = (Inl e, s)"

definition seek :: "nat \<Rightarrow> 'z istream_scheme \<Rightarrow> (error + unit) \<times> 'z istream_scheme" where
  "seek offset s =
     (if offset > length (stream_data s) then (Inl EofError, s)
      else (Inr (), s\<lparr>stream_pos := offset\<rparr>))"

definition tell :: "'z istream_scheme \<Rightarrow> nat" where
  "tell s = stream_pos s"

definition skip :: "nat \<Rightarrow> 'z istream_scheme \<Rightarrow> (error + unit) \<times> 'z istream_scheme" where
  "skip n s =
     (if stream_pos s + n > length (stream_data s) then (Inl EofError, s)
      else (Inr (), s\<lparr>stream_pos := stream_pos s + n\<rparr>))"

definition read :: "nat \<Rightarrow> 'z istream_scheme \<Rightarrow> (error + bstr) \<times> 'z istream_scheme" where
  "read n s =
     (if stream_pos s + n > length (stream_data s) then (Inl EofError, s)
      else (Inr (take n (drop (stream_pos s) (stream_data s))),
            s\<lparr>stream_pos := stream_pos s + n\<rparr>))"

text \<open>The value of a little-endian byte sequence.\<close>

fun le_word :: "bstr \<Rightarrow> 'a::len word" where
  "le_word [] = 0"
| "le_word (b # bs) = ucast b OR push_bit 8 (le_word bs)"

definition read_u8 :: "'z istream_scheme \<Rightarrow> (error + u8) \<times> 'z istream_scheme" where
  "read_u8 = io_bind (read 1) (\<lambda>bs. io_return (le_word bs))"

definition read_le_u16 :: "'z istream_scheme \<Rightarrow> (error + u16) \<times> 'z istream_scheme" where
  "read_le_u16 = io_bind (read 2) (\<lambda>bs. io_return (le_word bs))"

definition read_le_u32 :: "'z istream_scheme \<Rightarrow> (error + u32) \<times> 'z istream_scheme" where
  "read_le_u32 = io_bind (read 4) (\<lambda>bs. io_return (le_word bs))"

definition read_le_u64 :: "'z istream_scheme \<Rightarrow> (error + u64) \<times> 'z istream_scheme" where
  "read_le_u64 = io_bind (read 8) (\<lambda>bs. io_return (le_word bs))"

text \<open>
  \<open>peek(offset, func)\<close>: run \<open>func\<close> at \<open>offset\<close> and restore the cursor afterwards,
  whether \<open>func\<close> returned or threw. The body is a computation that may not return
  (\<open>None\<close>), as the crawler's is.
\<close>

definition peek ::
  "nat \<Rightarrow> ('z istream_scheme \<Rightarrow> ((error + 'a) \<times> 'z istream_scheme) option)
     \<Rightarrow> 'z istream_scheme \<Rightarrow> ((error + 'a) \<times> 'z istream_scheme) option" where
  "peek offset func s =
     (let old_pos = tell s in
      case seek offset s of
        (Inl e, s1) \<Rightarrow> Some (Inl e, s1)
      | (Inr _, s1) \<Rightarrow>
          (case func s1 of
             None \<Rightarrow> None
           | Some (r, s2) \<Rightarrow> Some (r, s2\<lparr>stream_pos := old_pos\<rparr>)))"

text \<open>\<open>bstr::str()\<close>: the bytes as chars.\<close>

definition str :: "bstr \<Rightarrow> string" where
  "str bs =
     map (\<lambda>b. Char (bit b 0) (bit b 1) (bit b 2) (bit b 3) (bit b 4) (bit b 5) (bit b 6) (bit b 7)) bs"

section \<open>The header model\<close>

text \<open>\<open>struct DosHeader\<close> and its constructor.\<close>

record DosHeader =
  dos_magic :: bstr
  e_cblp :: u16
  e_cp :: u16
  e_crlc :: u16
  e_cparhdr :: u16
  e_minalloc :: u16
  e_maxalloc :: u16
  e_ss :: u16
  e_sp :: u16
  e_csum :: u16
  e_ip :: u16
  e_cs :: u16
  e_lfarlc :: u16
  e_ovno :: u16
  e_oemid :: u16
  e_oeminfo :: u16
  e_lfanew :: u32

definition read_DosHeader :: "'z istream_scheme \<Rightarrow> (error + DosHeader) \<times> 'z istream_scheme" where
  "read_DosHeader =
     io_bind (read 2) (\<lambda>magic.
     io_bind read_le_u16 (\<lambda>cblp.
     io_bind read_le_u16 (\<lambda>cp.
     io_bind read_le_u16 (\<lambda>crlc.
     io_bind read_le_u16 (\<lambda>cparhdr.
     io_bind read_le_u16 (\<lambda>minalloc.
     io_bind read_le_u16 (\<lambda>maxalloc.
     io_bind read_le_u16 (\<lambda>ss.
     io_bind read_le_u16 (\<lambda>sp.
     io_bind read_le_u16 (\<lambda>csum.
     io_bind read_le_u16 (\<lambda>ip.
     io_bind read_le_u16 (\<lambda>cs.
     io_bind read_le_u16 (\<lambda>lfarlc.
     io_bind read_le_u16 (\<lambda>ovno.
     io_bind (skip (2 * 4)) (\<lambda>_.
     io_bind read_le_u16 (\<lambda>oemid.
     io_bind read_le_u16 (\<lambda>oeminfo.
     io_bind (skip (2 * 10)) (\<lambda>_.
     io_bind read_le_u32 (\<lambda>lfanew.
     io_return
       \<lparr>dos_magic = magic, e_cblp = cblp, e_cp = cp, e_crlc = crlc, e_cparhdr = cparhdr,
        e_minalloc = minalloc, e_maxalloc = maxalloc, e_ss = ss, e_sp = sp, e_csum = csum,
        e_ip = ip, e_cs = cs, e_lfarlc = lfarlc, e_ovno = ovno, e_oemid = oemid,
        e_oeminfo = oeminfo, e_lfanew = lfanew\<rparr>)))))))))))))))))))"

text \<open>
  \<open>struct ImageOptionalHeader\<close> and its constructor. The four stack and heap sizes are
  \<open>u64\<close> fields; the branch \<open>magic == 0x20B\<close> reads them as 64-bit values, the \<open>else\<close>
  branch as 32-bit values that are widened.
\<close>

record ImageOptionalHeader =
  opt_magic :: u16
  major_linker_version :: u8
  minor_linker_version :: u8
  size_of_code :: u32
  size_of_initialized_data :: u32
  size_of_uninitialized_data :: u32
  address_of_entry_point :: u32
  base_of_code :: u32
  base_of_data :: u32
  image_base :: u32
  opt_section_alignment :: u32
  opt_file_alignment :: u32
  major_operating_system_version :: u16
  minor_operating_system_version :: u16
  major_image_version :: u16
  minor_image_version :: u16
  major_subsystem_version :: u16
  minor_subsystem_version :: u16
  win32_version_value :: u32
  size_of_image :: u32
  size_of_headers :: u32
  checksum :: u32
  subsystem :: u16
  dll_characteristics :: u16
  size_of_stack_reserve :: u64
  size_of_stack_commit :: u64
  size_of_heap_reserve :: u64
  size_of_heap_commit :: u64
  loader_flags :: u32
  number_of_rva_and_sizes :: u32

text \<open>The four size fields, by the branch on \<open>pe64\<close>.\<close>

definition read_stack_heap_sizes ::
  "bool \<Rightarrow> 'z istream_scheme \<Rightarrow> (error + u64 \<times> u64 \<times> u64 \<times> u64) \<times> 'z istream_scheme" where
  "read_stack_heap_sizes pe64 =
     (if pe64 then
        io_bind read_le_u64 (\<lambda>stack_reserve.
        io_bind read_le_u64 (\<lambda>stack_commit.
        io_bind read_le_u64 (\<lambda>heap_reserve.
        io_bind read_le_u64 (\<lambda>heap_commit.
        io_return (stack_reserve, stack_commit, heap_reserve, heap_commit)))))
      else
        io_bind read_le_u32 (\<lambda>stack_reserve.
        io_bind read_le_u32 (\<lambda>stack_commit.
        io_bind read_le_u32 (\<lambda>heap_reserve.
        io_bind read_le_u32 (\<lambda>heap_commit.
        io_return (ucast stack_reserve, ucast stack_commit, ucast heap_reserve,
                   ucast heap_commit))))))"

definition read_ImageOptionalHeader ::
  "'z istream_scheme \<Rightarrow> (error + ImageOptionalHeader) \<times> 'z istream_scheme" where
  "read_ImageOptionalHeader =
     io_bind read_le_u16 (\<lambda>magic.
     io_bind read_u8 (\<lambda>major_linker.
     io_bind read_u8 (\<lambda>minor_linker.
     io_bind read_le_u32 (\<lambda>code.
     io_bind read_le_u32 (\<lambda>initialized_data.
     io_bind read_le_u32 (\<lambda>uninitialized_data.
     io_bind read_le_u32 (\<lambda>entry_point.
     io_bind read_le_u32 (\<lambda>code_base.
     io_bind read_le_u32 (\<lambda>data_base.
     io_bind read_le_u32 (\<lambda>image.
     io_bind read_le_u32 (\<lambda>section_align.
     io_bind read_le_u32 (\<lambda>file_align.
     io_bind read_le_u16 (\<lambda>major_os.
     io_bind read_le_u16 (\<lambda>minor_os.
     io_bind read_le_u16 (\<lambda>major_image.
     io_bind read_le_u16 (\<lambda>minor_image.
     io_bind read_le_u16 (\<lambda>major_subsystem.
     io_bind read_le_u16 (\<lambda>minor_subsystem.
     io_bind read_le_u32 (\<lambda>win32_version.
     io_bind read_le_u32 (\<lambda>image_size.
     io_bind read_le_u32 (\<lambda>headers_size.
     io_bind read_le_u32 (\<lambda>csum.
     io_bind read_le_u16 (\<lambda>subsys.
     io_bind read_le_u16 (\<lambda>dll.
     io_bind (read_stack_heap_sizes (magic = 0x20B)) (\<lambda>(stack_reserve, stack_commit, heap_reserve, heap_commit).
     io_bind read_le_u32 (\<lambda>flags.
     io_bind read_le_u32 (\<lambda>rva_and_sizes.
     io_return
       \<lparr>opt_magic = magic, major_linker_version = major_linker,
        minor_linker_version = minor_linker, size_of_code = code,
        size_of_initialized_data = initialized_data,
        size_of_uninitialized_data = uninitialized_data,
        address_of_entry_point = entry_point, base_of_code = code_base,
        base_of_data = data_base, image_base = image,
        opt_section_alignment = section_align, opt_file_alignment = file_align,
        major_operating_system_version = major_os,
        minor_operating_system_version = minor_os, major_image_version = major_image,
        minor_image_version = minor_image, major_subsystem_version = major_subsystem,
        minor_subsystem_version = minor_subsystem, win32_version_value = win32_version,
        size_of_image = image_size, size_of_headers = headers_size, checksum = csum,
        subsystem = subsys, dll_characteristics = dll,
        size_of_stack_reserve = stack_reserve, size_of_stack_commit = stack_commit,
        size_of_heap_reserve = heap_reserve, size_of_heap_commit = heap_commit,
        loader_flags = flags, number_of_rva_and_sizes = rva_and_sizes\<rparr>)))))))))))))))))))))))))))"

text \<open>\<open>struct ImageFileHeader\<close>, \<open>struct ImageNtHeader\<close> and their constructors.\<close>

record ImageFileHeader =
  machine :: u16
  number_of_sections :: u16
  file_timestamp :: u32
  pointer_to_symbol_table :: u32
  number_of_symbols :: u32
  size_of_optional_header :: u16
  file_characteristics :: u16

definition read_ImageFileHeader ::
  "'z istream_scheme \<Rightarrow> (error + ImageFileHeader) \<times> 'z istream_scheme" where
  "read_ImageFileHeader =
     io_bind read_le_u16 (\<lambda>mach.
     io_bind read_le_u16 (\<lambda>nsections.
     io_bind read_le_u32 (\<lambda>stamp.
     io_bind read_le_u32 (\<lambda>symbol_table.
     io_bind read_le_u32 (\<lambda>nsymbols.
     io_bind read_le_u16 (\<lambda>optional_size.
     io_bind read_le_u16 (\<lambda>chars.
     io_return
       \<lparr>machine = mach, number_of_sections = nsections, file_timestamp = stamp,
        pointer_to_symbol_table = symbol_table, number_of_symbols = nsymbols,
        size_of_optional_header = optional_size, file_characteristics = chars\<rparr>)))))))"

record ImageNtHeader =
  signature :: u32
  file_header :: ImageFileHeader
  optional_header :: ImageOptionalHeader

definition read_ImageNtHeader ::
  "'z istream_scheme \<Rightarrow> (error + ImageNtHeader) \<times> 'z istream_scheme" where
  "read_ImageNtHeader =
     io_bind read_le_u32 (\<lambda>sig.
     io_bind read_ImageFileHeader (\<lambda>fh.
     io_bind read_ImageOptionalHeader (\<lambda>oh.
     io_return \<lparr>signature = sig, file_header = fh, optional_header = oh\<rparr>)))"

text \<open>\<open>struct ImageDataDir\<close> and its constructor.\<close>

record ImageDataDir =
  dir_virtual_address :: u32
  dir_size :: u32

definition read_ImageDataDir ::
  "'z istream_scheme \<Rightarrow> (error + ImageDataDir) \<times> 'z istream_scheme" where
  "read_ImageDataDir =
     io_bind read_le_u32 (\<lambda>va.
     io_bind read_le_u32 (\<lambda>sz.
     io_return \<lparr>dir_virtual_address = va, dir_size = sz\<rparr>))"

text \<open>The constructor of \<open>ImageSectionHeader\<close>.\<close>

definition read_ImageSectionHeader ::
  "'z istream_scheme \<Rightarrow> (error + ImageSectionHeader) \<times> 'z istream_scheme" where
  "read_ImageSectionHeader =
     io_bind (read 8) (\<lambda>name.
     io_bind read_le_u32 (\<lambda>vsize.
     io_bind read_le_u32 (\<lambda>va.
     io_bind read_le_u32 (\<lambda>raw_size.
     io_bind read_le_u32 (\<lambda>raw_pointer.
     io_bind read_le_u32 (\<lambda>relocations.
     io_bind read_le_u32 (\<lambda>line_numbers.
     io_bind read_le_u16 (\<lambda>nrelocations.
     io_bind read_le_u16 (\<lambda>nline_numbers.
     io_bind read_le_u32 (\<lambda>chars.
     io_return
       \<lparr>section_name = str name, virtual_size = vsize, section_virtual_address = va,
        size_of_raw_data = raw_size, pointer_to_raw_data = raw_pointer,
        pointer_to_relocations = relocations, pointer_to_line_numbers = line_numbers,
        number_of_relocations = nrelocations, number_of_line_numbers = nline_numbers,
        section_characteristics = chars\<rparr>))))))))))"

text \<open>\<open>struct ImageResourceDir\<close> and its constructor.\<close>

record ImageResourceDir =
  resource_characteristics :: u32
  resource_timestamp :: u32
  major_version :: u16
  minor_version :: u16
  number_of_named_entries :: u16
  number_of_id_entries :: u16

definition read_ImageResourceDir ::
  "'z istream_scheme \<Rightarrow> (error + ImageResourceDir) \<times> 'z istream_scheme" where
  "read_ImageResourceDir =
     io_bind read_le_u32 (\<lambda>chars.
     io_bind read_le_u32 (\<lambda>stamp.
     io_bind read_le_u16 (\<lambda>major.
     io_bind read_le_u16 (\<lambda>minor.
     io_bind read_le_u16 (\<lambda>named.
     io_bind read_le_u16 (\<lambda>ids.
     io_return
       \<lparr>resource_characteristics = chars, resource_timestamp = stamp,
        major_version = major, minor_version = minor, number_of_named_entries = named,
        number_of_id_entries = ids\<rparr>))))))"

text \<open>
  \<open>struct ImageResourceDirEntry\<close> and its constructor: two 32-bit words, the high bit of
  each being a flag. \<open>data_is_dir\<close> is a \<open>u32\<close> in the source (the shifted word).
\<close>

record ImageResourceDirEntry =
  entry_offset_to_data :: u32
  name_is_string :: bool
  name_offset :: u32
  entry_name :: u32
  entry_id :: u32
  data_is_dir :: u32

definition read_ImageResourceDirEntry ::
  "'z istream_scheme \<Rightarrow> (error + ImageResourceDirEntry) \<times> 'z istream_scheme" where
  "read_ImageResourceDirEntry =
     io_bind read_le_u32 (\<lambda>name.
     io_bind read_le_u32 (\<lambda>offset_to_data.
     io_return
       \<lparr>entry_offset_to_data = offset_to_data AND 0x7FFFFFFF,
        name_is_string = (drop_bit 31 name > 0),
        name_offset = name AND 0x7FFFFFFF,
        entry_name = name,
        entry_id = name,
        data_is_dir = drop_bit 31 offset_to_data\<rparr>))"

text \<open>\<open>struct ImageResourceDataEntry\<close> and its constructor.\<close>

record ImageResourceDataEntry =
  data_offset_to_data :: u32
  data_size :: u32
  code_page :: u32

definition read_ImageResourceDataEntry ::
  "'z istream_scheme \<Rightarrow> (error + ImageResourceDataEntry) \<times> 'z istream_scheme" where
  "read_ImageResourceDataEntry =
     io_bind read_le_u32 (\<lambda>offset_to_data.
     io_bind read_le_u32 (\<lambda>sz.
     io_bind read_le_u32 (\<lambda>cp.
     io_bind (skip 4) (\<lambda>_.
     io_return \<lparr>data_offset_to_data = offset_to_data, data_size = sz, code_page = cp\<rparr>))))"

section \<open>Text helpers\<close>

text \<open>
  Modelled from the spec: the Unicode transcoder (\<open>algo::utf16_to_utf8\<close>) is not among
  the sources; the specification has the name's UTF-16 code units transcoded to the
  output text encoding. The model decodes little-endian UTF-16 (surrogate pairs
  included) and encodes UTF-8; an odd number of bytes or an unpaired surrogate is an
  \<open>EncodingError\<close>.
\<close>

fun utf16_code_units :: "bstr \<Rightarrow> nat list option" where
  "utf16_code_units [] = Some []"
| "utf16_code_units [b] = None"
| "utf16_code_units (lo # hi # rest) =
     map_option (\<lambda>us. (unat lo + 256 * unat hi) # us) (utf16_code_units rest)"

fun utf16_code_points :: "nat list \<Rightarrow> nat list option" where
  "utf16_code_points [] = Some []"
| "utf16_code_points [u] = (if u < 0xD800 \<or> 0xE000 \<le> u then Some [u] else None)"
| "utf16_code_points (u # l # us) =
     (if u < 0xD800 \<or> 0xE000 \<le> u
      then map_option (\<lambda>cs. u # cs) (utf16_code_points (l # us))
      else if u < 0xDC00 \<and> 0xDC00 \<le> l \<and> l < 0xE000
      then map_option (\<lambda>cs. (0x10000 + (u - 0xD800) * 0x400 + (l - 0xDC00)) # cs)
             (utf16_code_points us)
      else None)"

definition utf8_encode :: "nat \<Rightarrow> bstr" where
  "utf8_encode c =
     (if c < 0x80 then [of_nat c]
      else if c < 0x800 then [of_nat (0xC0 + c div 0x40), of_nat (0x80 + c mod 0x40)]
      else if c < 0x10000 then
        [of_nat (0xE0 + c div 0x1000), of_nat (0x80 + c div 0x40 mod 0x40),
         of_nat (0x80 + c mod 0x40)]
      else
        [of_nat (0xF0 + c div 0x40000), of_nat (0x80 + c div 0x1000 mod 0x40),
         of_nat (0x80 + c div 0x40 mod 0x40), of_nat (0x80 + c mod 0x40)])"

definition utf16_to_utf8 :: "bstr \<Rightarrow> error + bstr" where
  "utf16_to_utf8 bs =
     (case utf16_code_units bs of
        None \<Rightarrow> Inl EncodingError
      | Some us \<Rightarrow>
          (case utf16_code_points us of
             None \<Rightarrow> Inl EncodingError
           | Some cs \<Rightarrow> Inr (concat (map utf8_encode cs))))"

text \<open>
  \<open>algo::format("%d", entry.id)\<close>: the decimal digits of the 32-bit value read as a
  signed \<open>int\<close>, as \<open>%d\<close> does.
\<close>

fun format_nat :: "nat \<Rightarrow> string" where
  "format_nat n =
     (if n < 10 then [''0123456789'' ! n]
      else format_nat (n div 10) @ [''0123456789'' ! (n mod 10)])"

definition format_d :: "int \<Rightarrow> string" where
  "format_d i = (if i < 0 then ''-'' @ format_nat (nat (- i)) else format_nat (nat i))"

text \<open>\<open>path_sep\<close>: the UTF-8 bytes of the full-width solidus U+FF0F.\<close>

definition path_sep :: string where
  "path_sep = [CHR 0xEF, CHR 0xBC, CHR 0x8F]"

section \<open>The resource crawler\<close>

text \<open>
  \<open>struct ArchiveEntryImpl\<close>: the \<open>path\<close> of \<open>dec::ArchiveEntry\<close> with \<open>offset\<close> and
  \<open>size\<close> (both \<open>size_t\<close>, which holds every \<open>u32\<close>).
\<close>

record ArchiveEntryImpl =
  archive_path :: string
  archive_offset :: nat
  archive_size :: nat

text \<open>
  The crawler works on three objects it holds by reference: the input stream, the
  archive metadata it appends to, and the logger. They are the crawler's state: the
  stream, the entries appended so far, and the lines logged so far, a line being the
  offset and the cause that \<open>Logger::err\<close> is given.
\<close>

record crawl_state = istream +
  meta_entries :: "ArchiveEntryImpl list"
  logged :: "(nat \<times> error) list"

text \<open>\<open>struct ResourceCrawlerArgs\<close>: the members that are values.\<close>

record ResourceCrawlerArgs =
  rva_helper :: RvaHelper
  base_offset :: nat

text \<open>\<open>ResourceCrawler::process_entry\<close>.\<close>

definition process_entry ::
  "ResourceCrawlerArgs \<Rightarrow> nat \<Rightarrow> string \<Rightarrow> crawl_state \<Rightarrow> (error + unit) \<times> crawl_state" where
  "process_entry args offset path =
     io_bind (seek (base_offset args + offset)) (\<lambda>_.
     io_bind read_ImageResourceDataEntry (\<lambda>resource_entry.
     (case rva_to_offset (rva_helper args) (data_offset_to_data resource_entry) of
        Inl e \<Rightarrow> io_throw e
      | Inr file_offset \<Rightarrow>
          (\<lambda>s. (Inr (),
                 s\<lparr>meta_entries := meta_entries s @
                      [\<lparr>archive_path = path, archive_offset = unat file_offset,
                        archive_size = unat (data_size resource_entry)\<rparr>]\<rparr>)))))"

text \<open>The \<open>switch\<close> of \<open>ResourceCrawler::read_entry_name\<close> with the \<open>format\<close> after it.\<close>

definition resource_type_name :: "u32 \<Rightarrow> string" where
  "resource_type_name i =
     (if i = 1 then ''CURSOR''
      else if i = 2 then ''BITMAP''
      else if i = 3 then ''ICON''
      else if i = 4 then ''MENU''
      else if i = 5 then ''DIALOG''
      else if i = 6 then ''STRING''
      else if i = 7 then ''FONT_DIRECTORY''
      else if i = 8 then ''FONT''
      else if i = 9 then ''ACCELERATOR''
      else if i = 10 then ''RC_DATA''
      else if i = 11 then ''MESSAGE_TABLE''
      else if i = 16 then ''VERSION''
      else if i = 17 then ''DLG_INCLUDE''
      else if i = 19 then ''PLUG_AND_PLAY''
      else if i = 20 then ''VXD''
      else if i = 21 then ''ANIMATED_CURSOR''
      else if i = 22 then ''ANIMATED_ICON''
      else if i = 23 then ''HTML''
      else if i = 24 then ''MANIFEST''
      else format_d (sint i))"

text \<open>\<open>ResourceCrawler::read_entry_name\<close>.\<close>

definition read_entry_name ::
  "ResourceCrawlerArgs \<Rightarrow> ImageResourceDirEntry \<Rightarrow> crawl_state \<Rightarrow> (error + string) \<times> crawl_state" where
  "read_entry_name args entry =
     (if name_is_string entry then
        io_bind (seek (base_offset args + unat (name_offset entry))) (\<lambda>_.
        io_bind read_le_u16 (\<lambda>max_size.
        io_bind (read (unat max_size * 2)) (\<lambda>name_utf16.
        (case utf16_to_utf8 name_utf16 of
           Inl e \<Rightarrow> io_throw e
         | Inr name_utf8 \<Rightarrow> io_return (str name_utf8)))))
      else io_return (resource_type_name (entry_id entry)))"

text \<open>
  The path of a child: \<open>if (path != "") entry_path = path + path_sep + entry_path\<close>.
\<close>

definition child_path :: "string \<Rightarrow> string \<Rightarrow> string" where
  "child_path path name = (if path \<noteq> [] then path @ path_sep @ name else name)"

lemma peek_cong [fundef_cong]:
  "offset = offset' \<Longrightarrow> s = s' \<Longrightarrow> (\<And>t. func t = func' t) \<Longrightarrow> peek offset func s = peek offset' func' s'"
  by (simp add: peek_def split: prod.splits sum.splits)

text \<open>
  \<open>ResourceCrawler::process_dir\<close>. The source recurses as deep as the file's directories
  point; the model counts the nesting with \<open>fuel\<close> and returns \<open>None\<close> when a directory
  lies deeper than the fuel, so that a crawl that does not return is one that is \<open>None\<close>
  for every fuel. \<open>process_dir_entries\<close> is the \<open>for\<close> loop with the number of entries
  left to read; the body of the \<open>try\<close> is the function given to \<open>peek\<close>, and the \<open>catch\<close>
  logs the offset \<open>base_offset + entry.offset_to_data\<close> with the cause.
\<close>

fun process_dir ::
    "nat \<Rightarrow> ResourceCrawlerArgs \<Rightarrow> nat \<Rightarrow> string \<Rightarrow> crawl_state
       \<Rightarrow> ((error + unit) \<times> crawl_state) option"
  and process_dir_entries ::
    "nat \<Rightarrow> ResourceCrawlerArgs \<Rightarrow> string \<Rightarrow> nat \<Rightarrow> crawl_state
       \<Rightarrow> ((error + unit) \<times> crawl_state) option"
where
  "process_dir 0 args offset path s = None"
| "process_dir (Suc fuel) args offset path s =
     (case seek (base_offset args + offset) s of
        (Inl e, s1) \<Rightarrow> Some (Inl e, s1)
      | (Inr _, s1) \<Rightarrow>
          (case read_ImageResourceDir s1 of
             (Inl e, s2) \<Rightarrow> Some (Inl e, s2)
           | (Inr dir, s2) \<Rightarrow>
               process_dir_entries fuel args path
                 (unat (number_of_named_entries dir) + unat (number_of_id_entries dir)) s2))"
| "process_dir_entries fuel args path 0 s = Some (Inr (), s)"
| "process_dir_entries fuel args path (Suc n) s =
     (case read_ImageResourceDirEntry s of
        (Inl e, s1) \<Rightarrow> Some (Inl e, s1)
      | (Inr entry, s1) \<Rightarrow>
          (case peek (tell s1)
                  (\<lambda>t. case read_entry_name args entry t of
                          (Inl e, t1) \<Rightarrow> Some (Inl e, t1)
                        | (Inr name, t1) \<Rightarrow>
                            (if data_is_dir entry \<noteq> 0
                             then process_dir fuel args (unat (entry_offset_to_data entry))
                                    (child_path path name) t1
                             else Some (process_entry args (unat (entry_offset_to_data entry))
                                    (child_path path name) t1)))
                  s1 of
             None \<Rightarrow> None
           | Some (Inl e, s2) \<Rightarrow>
               process_dir_entries fuel args path n
                 (s2\<lparr>logged := logged s2 @
                      [(base_offset args + unat (entry_offset_to_data entry), e)]\<rparr>)
           | Some (Inr _, s2) \<Rightarrow> process_dir_entries fuel args path n s2))"

text \<open>\<open>ResourceCrawler::crawl\<close>: \<open>process_dir(0)\<close> with the default empty path.\<close>

definition crawl ::
  "nat \<Rightarrow> ResourceCrawlerArgs \<Rightarrow> crawl_state \<Rightarrow> ((error + unit) \<times> crawl_state) option" where
  "crawl fuel args s = process_dir fuel args 0 [] s"

section \<open>The decoder\<close>

text \<open>\<open>ExeArchiveDecoder::is_recognized_impl\<close>; \<open>"MZ"_b\<close> is the bytes 0x4D 0x5A.\<close>

definition is_recognized_impl :: "'z istream_scheme \<Rightarrow> (error + bool) \<times> 'z istream_scheme" where
  "is_recognized_impl =
     io_bind read_DosHeader (\<lambda>dos_header.
     io_return (dos_magic dos_header = [0x4D, 0x5A]))"

text \<open>
  A loop \<open>for (auto i : algo::range(n)) v.push_back(T(input_stream))\<close>: \<open>n\<close> structures
  decoded one after the other.
\<close>

primrec read_many :: "nat \<Rightarrow> ('s \<Rightarrow> (error + 'a) \<times> 's) \<Rightarrow> 's \<Rightarrow> (error + 'a list) \<times> 's" where
  "read_many 0 m = io_return []"
| "read_many (Suc n) m =
     io_bind m (\<lambda>x.
     io_bind (read_many n m) (\<lambda>xs.
     io_return (x # xs)))"

text \<open>
  The first half of \<open>ExeArchiveDecoder::read_meta_impl\<close>: the headers, the data
  directories and the sections, read in this order.
\<close>

definition read_headers ::
  "'z istream_scheme
     \<Rightarrow> (error + ImageNtHeader \<times> ImageDataDir list \<times> ImageSectionHeader list) \<times> 'z istream_scheme" where
  "read_headers =
     io_bind read_DosHeader (\<lambda>dos_header.
     io_bind (seek (unat (e_lfanew dos_header))) (\<lambda>_.
     io_bind read_ImageNtHeader (\<lambda>nt_header.
     io_bind (read_many (unat (number_of_rva_and_sizes (optional_header nt_header)))
                read_ImageDataDir) (\<lambda>data_dirs.
     io_bind (read_many (unat (number_of_sections (file_header nt_header)))
                read_ImageSectionHeader) (\<lambda>secs.
     io_return (nt_header, data_dirs, secs))))))"

text \<open>
  What \<open>read_meta_impl\<close> comes to: the archive metadata, an exception, or the undefined
  behaviour of \<open>std::vector::operator[]\<close> with an index that is not below the vector's
  size (the source indexes \<open>data_dirs[2]\<close> without a check; this is no exception and
  nothing can catch it).
\<close>

datatype meta_result =
  Meta "ArchiveEntryImpl list"
| Throws error
| UndefinedBehaviour

text \<open>
  \<open>ExeArchiveDecoder::read_meta_impl\<close>. The metadata object is created empty right
  before the crawl.
\<close>

definition read_meta_impl :: "nat \<Rightarrow> crawl_state \<Rightarrow> (meta_result \<times> crawl_state) option" where
  "read_meta_impl fuel s =
     (case read_headers s of
        (Inl e, s1) \<Rightarrow> Some (Throws e, s1)
      | (Inr (nt_header, data_dirs, secs), s1) \<Rightarrow>
          (let helper =
                 \<lparr>file_alignment = opt_file_alignment (optional_header nt_header),
                  section_alignment = opt_section_alignment (optional_header nt_header),
                  sections = secs\<rparr>
           in if \<not> 2 < length data_dirs then Some (UndefinedBehaviour, s1)
              else
                (let resource_dir = data_dirs ! 2 in
                 case rva_to_offset helper (dir_virtual_address resource_dir) of
                   Inl e \<Rightarrow> Some (Throws e, s1)
                 | Inr base \<Rightarrow>
                     (case crawl fuel \<lparr>rva_helper = helper, base_offset = unat base\<rparr>
                             (s1\<lparr>meta_entries := []\<rparr>) of
                        None \<Rightarrow> None
                      | Some (Inl e, s2) \<Rightarrow> Some (Throws e, s2)
                      | Some (Inr _, s2) \<Rightarrow> Some (Meta (meta_entries s2), s2)))))"

section \<open>Vocabulary of the statements\<close>

text \<open>
  A vocabulary for the statements about decoders: a decoder that reads exactly \<open>n\<close>
  bytes. With \<open>n\<close> bytes left after the cursor it returns a value and moves the cursor
  by \<open>n\<close>; with fewer it raises \<open>EofError\<close>; either way it changes nothing of the state
  but the cursor.
\<close>

definition consumes ::
  "nat \<Rightarrow> ('z istream_scheme \<Rightarrow> (error + 'a) \<times> 'z istream_scheme) \<Rightarrow> bool" where
  "consumes n m \<longleftrightarrow>
     (\<forall>s. (stream_pos s + n \<le> length (stream_data s) \<longrightarrow>
            (\<exists>x. m s = (Inr x, s\<lparr>stream_pos := stream_pos s + n\<rparr>)))
        \<and> (length (stream_data s) < stream_pos s + n \<longrightarrow>
            (\<exists>p. m s = (Inl EofError, s\<lparr>stream_pos := p\<rparr>))))"

text \<open>
  The function that \<open>process_dir\<close> gives to \<open>peek\<close> for one directory entry, under a
  name of its own: the body of the \<open>try\<close> block.
\<close>

definition entry_body ::
  "nat \<Rightarrow> ResourceCrawlerArgs \<Rightarrow> string \<Rightarrow> ImageResourceDirEntry \<Rightarrow> crawl_state
     \<Rightarrow> ((error + unit) \<times> crawl_state) option" where
  "entry_body fuel args path entry t =
     (case read_entry_name args entry t of
        (Inl e, t1) \<Rightarrow> Some (Inl e, t1)
      | (Inr name, t1) \<Rightarrow>
          (if data_is_dir entry \<noteq> 0
           then process_dir fuel args (unat (entry_offset_to_data entry))
                  (child_path path name) t1
           else Some (process_entry args (unat (entry_offset_to_data entry))
                  (child_path path name) t1)))"

text \<open>
  A display name of the file: what \<open>read_entry_name\<close> returns for a directory entry
  decoded somewhere in the data.
\<close>

definition is_entry_name :: "ResourceCrawlerArgs \<Rightarrow> bstr \<Rightarrow> string \<Rightarrow> bool" where
  "is_entry_name args data name \<longleftrightarrow>
     (\<exists>(t :: crawl_state) entry t1 t2.
        stream_data t = data
        \<and> read_ImageResourceDirEntry t = (Inr entry, t1)
        \<and> read_entry_name args entry t1 = (Inr name, t2))"

text \<open>
  What a crawl below the accumulated path \<open>path\<close> may do to the state: the data stay,
  the log grows, and the entries grow by entries whose path is \<open>path\<close> continued, with
  \<open>child_path\<close>, by one display name or more, from the top down.
\<close>

definition crawl_extends ::
  "ResourceCrawlerArgs \<Rightarrow> string \<Rightarrow> crawl_state \<Rightarrow> crawl_state \<Rightarrow> bool" where
  "crawl_extends args path s s' \<longleftrightarrow>
     stream_data s' = stream_data s
     \<and> (\<exists>l. logged s' = logged s @ l)
     \<and> (\<exists>new. meta_entries s' = meta_entries s @ new
          \<and> (\<forall>e \<in> set new. \<exists>names. names \<noteq> []
                \<and> (\<forall>name \<in> set names. is_entry_name args (stream_data s) name)
                \<and> archive_path e = foldl child_path path names))"

text \<open>
  An optional header of 96 bytes with the magic bytes \<open>m0\<close>, \<open>m1\<close>: the sizes of stack
  and heap are 1, 2, 3 and 4 in the 32-bit layout, every other field is 0.
\<close>

definition example_optional_header :: "u8 \<Rightarrow> u8 \<Rightarrow> istream" where
  "example_optional_header m0 m1 =
     \<lparr>stream_data =
        [m0, m1] @ replicate 70 0 @ [1, 0, 0, 0, 2, 0, 0, 0, 3, 0, 0, 0, 4, 0, 0, 0]
        @ replicate 8 0,
      stream_pos = 0\<rparr>"



section \<open>Example data\<close>

text \<open>
  A resource tree of 100 bytes. The root directory has two named entries: a leaf whose
  name offset 0xFFFF lies beyond the data, and the directory "A"; "A" holds the
  directory with the id 3, which holds the leaf with the id 1033, whose data entry
  gives the address 0x2010 and the size 0x20.
\<close>

definition example_tree :: bstr where
  "example_tree =
     [0, 0, 0, 0,  0, 0, 0, 0,  0, 0,  0, 0,  2, 0,  0, 0,
      0xFF, 0xFF, 0, 0x80,  0, 0, 0, 0,
      32, 0, 0, 0x80,  36, 0, 0, 0x80,
      1, 0,  0x41, 0,
      0, 0, 0, 0,  0, 0, 0, 0,  0, 0,  0, 0,  0, 0,  1, 0,
      3, 0, 0, 0,  60, 0, 0, 0x80,
      0, 0, 0, 0,  0, 0, 0, 0,  0, 0,  0, 0,  0, 0,  1, 0,
      0x09, 0x04, 0, 0,  84, 0, 0, 0,
      0x10, 0x20, 0, 0,  0x20, 0, 0, 0,  0, 0, 0, 0,  0, 0, 0, 0]"

definition example_args :: ResourceCrawlerArgs where
  "example_args = \<lparr>rva_helper = example_helper 0x200 0x1000, base_offset = 0\<rparr>"

definition example_state :: "bstr \<Rightarrow> crawl_state" where
  "example_state data = \<lparr>stream_data = data, stream_pos = 0, meta_entries = [], logged = []\<rparr>"

text \<open>The state of the crawler in the root directory of a tree, with the cursor at \<open>p\<close>.\<close>

definition example_at :: "bstr \<Rightarrow> nat \<Rightarrow> crawl_state" where
  "example_at data p = \<lparr>stream_data = data, stream_pos = p, meta_entries = [], logged = []\<rparr>"

text \<open>
  A root directory that announces two entries in a file that ends after the first: the
  first entry is a leaf with the id 1 whose data entry is read at offset 0 (over the
  directory header, whose first words make the address 0x2010 and the size 0x20).
\<close>

definition truncated_tree :: bstr where
  "truncated_tree =
     [0x10, 0x20, 0, 0,  0x20, 0, 0, 0,  0, 0,  0, 0,  0, 0,  2, 0,
      1, 0, 0, 0,  0, 0, 0, 0]"

text \<open>The entry that the examples find: its path, at file offset 0x210, 0x20 bytes long.\<close>

definition example_entry :: "string \<Rightarrow> ArchiveEntryImpl" where
  "example_entry path = \<lparr>archive_path = path, archive_offset = 0x210, archive_size = 0x20\<rparr>"

text \<open>
  The smallest file whose headers decode: "MZ" and 118 zero bytes. \<open>e_lfanew\<close> is 0, so
  the NT header is read from the start of the file again; it announces no section and
  no data directory.
\<close>

definition smallest_file :: bstr where
  "smallest_file = [0x4D, 0x5A] @ replicate 118 0"

text \<open>The same with three data directories announced, and present, all zero.\<close>

definition three_dirs_file :: bstr where
  "three_dirs_file = [0x4D, 0x5A] @ replicate 114 0 @ [3, 0, 0, 0] @ replicate 24 0"



text \<open>
  A whole file of 248 bytes and a resource tree: the DOS header with \<open>e_lfanew = 64\<close>;
  the NT header with one section, both alignments 4, the magic bytes \<open>m0\<close>, \<open>m1\<close> of
  the optional header and \<open>k\<close> data directories announced; three data directories,
  the third being the resource table at the address 0x2000; the header of the section
  ".rsrc", which maps the addresses from 0x2000 on to the file offsets from 248 on; and
  from offset 248 on the tree.
\<close>

definition example_file :: "u8 \<Rightarrow> u8 \<Rightarrow> u8 \<Rightarrow> bstr \<Rightarrow> bstr" where
  "example_file m0 m1 k tree =
     [0x4D, 0x5A, 0, 0, 0, 0, 0, 0, 0, 0, 0, 0, 0, 0, 0, 0,
      0, 0, 0, 0, 0, 0, 0, 0, 0, 0, 0, 0, 0, 0, 0, 0,
      0, 0, 0, 0, 0, 0, 0, 0, 0, 0, 0, 0, 0, 0, 0, 0,
      0, 0, 0, 0, 0, 0, 0, 0, 0, 0, 0, 0, 0x40, 0, 0, 0,
      0x50, 0x45, 0, 0, 0x4C, 1, 1, 0, 0, 0, 0, 0, 0, 0, 0, 0,
      0, 0, 0, 0, 0x60, 0, 0, 0, m0, m1, 0, 0, 0, 0, 0, 0,
      0, 0, 0, 0, 0, 0, 0, 0, 0, 0, 0, 0, 0, 0, 0, 0,
      0, 0, 0, 0, 0, 0, 0, 0, 4, 0, 0, 0, 4, 0, 0, 0,
      0, 0, 0, 0, 0, 0, 0, 0, 0, 0, 0, 0, 0, 0, 0, 0,
      0, 0, 0, 0, 0, 0, 0, 0, 0, 0, 0, 0, 0, 0, 0, 0,
      0, 0, 0, 0, 0, 0, 0, 0, 0, 0, 0, 0, 0, 0, 0, 0,
      0, 0, 0, 0, k, 0, 0, 0, 0, 0, 0, 0, 0, 0, 0, 0,
      0, 0, 0, 0, 0, 0, 0, 0, 0, 0x20, 0, 0, 0, 1, 0, 0,
      0x2E, 0x72, 0x73, 0x72, 0x63, 0, 0, 0, 0, 0x10, 0, 0, 0, 0x20, 0, 0,
      0, 0x10, 0, 0, 0xF8, 0, 0, 0, 0, 0, 0, 0, 0, 0, 0, 0,
      0, 0, 0, 0, 0, 0, 0, 0]
     @ tree"

text \<open>What the headers of \<open>example_file\<close> decode to: its data directories, its section.\<close>

definition example_file_dirs :: "ImageDataDir list" where
  "example_file_dirs =
     [\<lparr>dir_virtual_address = 0, dir_size = 0\<rparr>,
      \<lparr>dir_virtual_address = 0, dir_size = 0\<rparr>,
      \<lparr>dir_virtual_address = 0x2000, dir_size = 0x100\<rparr>]"

definition example_file_section :: ImageSectionHeader where
  "example_file_section =
     \<lparr>section_name = ''.rsrc'' @ [CHR 0x00, CHR 0x00, CHR 0x00], virtual_size = 0x1000,
      section_virtual_address = 0x2000, size_of_raw_data = 0x1000,
      pointer_to_raw_data = 248, pointer_to_relocations = 0, pointer_to_line_numbers = 0,
      number_of_relocations = 0, number_of_line_numbers = 0, section_characteristics = 0\<rparr>"

definition example_file_args :: ResourceCrawlerArgs where
  "example_file_args =
     \<lparr>rva_helper =
        \<lparr>file_alignment = 4, section_alignment = 4, sections = [example_file_section]\<rparr>,
      base_offset = 248\<rparr>"

section \<open>Properties of the address translator\<close>



lemma unat_round_down_512: "unat ((x :: u32) div 0x200 * 0x200) = unat x div 512 * 512"
proof -
  have "unat x div 512 * 512 \<le> unat x" by simp
  also have "unat x < 2 ^ 32" using unsigned_less [of x] by simp
  finally have "unat x div 512 * 512 < 2 ^ 32" .
  then show ?thesis
    by (simp add: unat_word_ariths unat_div)
qed

lemma unat_round_down:
  fixes x d :: u32
  shows "unat (d * (x div d)) = unat x div unat d * unat d"
proof -
  have lt: "unat x < 2 ^ 32" using unsigned_less [of x] by simp
  have "unat x div unat d * unat d \<le> unat x" by simp
  with lt have a: "unat x div unat d * unat d < 2 ^ 32" by linarith
  have "unat x div unat d \<le> unat x" by (rule div_le_dividend)
  with lt have b: "unat x div unat d < 2 ^ 32" by linarith
  have "unat (d * (x div d)) = (unat d * (unat x div unat d)) mod 2 ^ 32"
    using b by (simp add: unat_word_ariths unat_div)
  also have "\<dots> = unat x div unat d * unat d"
    using a by (simp add: mult.commute)
  finally show ?thesis .
qed


text \<open>
  C1, as the code has it. For the section that owns the address, \<open>rva_to_offset\<close> adds
  the adjusted \<open>pointer_to_raw_data\<close>; the adjustment leaves the pointer unchanged when
  the declared \<open>file_alignment\<close> is below 512 (0x200), and rounds it down to a multiple
  of 512 when the declared \<open>file_alignment\<close> is 512 or more.
\<close>

theorem rva_to_offset_file_alignment:
  "(section_for_rva h rva = Inr section \<longrightarrow>
      rva_to_offset h rva =
        Inr (rva + adjust_file_alignment h (pointer_to_raw_data section)
             - adjust_section_alignment h (section_virtual_address section)))
   \<and> (file_alignment h < 0x200 \<longrightarrow> adjust_file_alignment h offset = offset)
   \<and> (0x200 \<le> file_alignment h \<longrightarrow>
        unat (adjust_file_alignment h offset) = unat offset div 512 * 512
        \<and> unat (adjust_file_alignment h offset) mod 512 = 0
        \<and> adjust_file_alignment h offset \<le> offset)"
proof (intro conjI impI)
  assume "section_for_rva h rva = Inr section"
  then show "rva_to_offset h rva =
      Inr (rva + adjust_file_alignment h (pointer_to_raw_data section)
           - adjust_section_alignment h (section_virtual_address section))"
    by (simp add: rva_to_offset_def)
next
  assume "file_alignment h < 0x200"
  then show "adjust_file_alignment h offset = offset"
    by (simp add: adjust_file_alignment_def)
next
  assume big: "0x200 \<le> file_alignment h"
  then have eq: "adjust_file_alignment h offset = offset div 0x200 * 0x200"
    by (simp add: adjust_file_alignment_def not_less [symmetric])
  show u: "unat (adjust_file_alignment h offset) = unat offset div 512 * 512"
    by (simp only: eq unat_round_down_512)
  show "unat (adjust_file_alignment h offset) mod 512 = 0"
    by (simp add: u)
  have "unat (adjust_file_alignment h offset) \<le> unat offset"
    by (simp add: u)
  then show "adjust_file_alignment h offset \<le> offset"
    by (simp add: word_le_nat_alt)
qed

theorem rva_to_offset_file_alignment_witness:
  "section_for_rva (example_helper 0x100 0x1000) 0x2010 = Inr example_section
   \<and> rva_to_offset (example_helper 0x100 0x1000) 0x2010 = Inr 0x40F
   \<and> adjust_file_alignment (example_helper 0x100 0x1000) 0x3FF = 0x3FF
   \<and> unat (adjust_file_alignment (example_helper 0x200 0x1000) 0x3FF) = 512"
proof -
  have s: "section_for_rva (example_helper 0x100 0x1000) 0x2010 = Inr example_section"
    by (simp add: section_for_rva_def example_helper_def example_section_def)
  have a: "(file_alignment (example_helper 0x100 0x1000) < 0x200) = True"
    by (simp add: example_helper_def)
  have b: "(0x200 \<le> file_alignment (example_helper 0x200 0x1000)) = True"
    by (simp add: example_helper_def)
  have c: "adjust_section_alignment (example_helper 0x100 0x1000) 0x2000 = 0x2000"
    by (simp add: adjust_section_alignment_def example_helper_def)
  have d: "pointer_to_raw_data example_section = 0x3FF"
     "section_virtual_address example_section = 0x2000"
    by (simp_all add: example_section_def)
  show ?thesis
    using rva_to_offset_file_alignment
        [of "example_helper 0x100 0x1000" "0x2010" example_section "0x3FF"]
      rva_to_offset_file_alignment
        [of "example_helper 0x200 0x1000" "0x2010" example_section "0x3FF"]
    by (simp add: s a b c d)
qed

text \<open>
  C1 as the specification words it fails on the code, in both directions: with a declared
  alignment of 0x100 (below 512) the pointer 0x3FF is not rounded to a 512-byte boundary,
  and the translated offset of address 0x2010 is 0x40F, not 0x210; with a declared
  alignment of 0x200 the pointer 0x3FF is not left unchanged.
\<close>

theorem file_alignment_below_512_counterexample:
  "file_alignment (example_helper 0x100 0x1000) < 0x200
   \<and> unat (adjust_file_alignment (example_helper 0x100 0x1000) 0x3FF) mod 512 \<noteq> 0
   \<and> rva_to_offset (example_helper 0x100 0x1000) 0x2010 = Inr 0x40F
   \<and> 0x200 \<le> file_alignment (example_helper 0x200 0x1000)
   \<and> adjust_file_alignment (example_helper 0x200 0x1000) 0x3FF \<noteq> 0x3FF"
  by (simp add: example_helper_def example_section_def adjust_file_alignment_def
      adjust_section_alignment_def rva_to_offset_def section_for_rva_def)



text \<open>
  C6. With the effective divisor \<open>d\<close> being the declared \<open>file_alignment\<close> when the
  declared \<open>section_alignment\<close> is below 4096 (0x1000) and the declared
  \<open>section_alignment\<close> otherwise, \<open>adjust_section_alignment\<close> rounds its argument down
  to a multiple of \<open>d\<close> when \<open>d\<close> is not zero and the argument is not a multiple of it,
  and leaves the argument unchanged otherwise.
\<close>

theorem adjust_section_alignment_rounds_down:
  "(let d = (if section_alignment h < 0x1000 then file_alignment h else section_alignment h);
        r = adjust_section_alignment h x
    in (d \<noteq> 0 \<and> x mod d \<noteq> 0 \<longrightarrow>
          unat r = unat x div unat d * unat d \<and> unat r mod unat d = 0
          \<and> r < x \<and> unat x - unat r < unat d)
       \<and> (d = 0 \<or> x mod d = 0 \<longrightarrow> r = x))"
proof -
  define d where "d = (if section_alignment h < 0x1000 then file_alignment h else section_alignment h)"
  define r where "r = adjust_section_alignment h x"
  have r_eq: "r = (if d \<noteq> 0 \<and> x mod d \<noteq> 0 then d * (x div d) else x)"
    by (simp add: r_def d_def adjust_section_alignment_def Let_def)
  have "unat r = unat x div unat d * unat d \<and> unat r mod unat d = 0
          \<and> r < x \<and> unat x - unat r < unat d" if nz: "d \<noteq> 0" and nm: "x mod d \<noteq> 0"
  proof -
    from nz nm have r': "r = d * (x div d)" by (simp add: r_eq)
    have u: "unat r = unat x div unat d * unat d"
      by (simp only: r' unat_round_down)
    have dpos: "0 < unat d" using nz by (simp add: unat_gt_0)
    have "unat (x mod d) \<noteq> 0" using nm by (simp add: unat_eq_0)
    then have m: "unat x mod unat d \<noteq> 0" by (simp add: unat_mod)
    have split: "unat x = unat x div unat d * unat d + unat x mod unat d"
      by simp
    have lt: "unat r < unat x" using u m split by linarith
    have "unat x mod unat d < unat d" using dpos by simp
    then have gap: "unat x - unat r < unat d" using u split by linarith
    show ?thesis using u lt gap by (simp add: word_less_nat_alt)
  qed
  moreover have "r = x" if "d = 0 \<or> x mod d = 0"
    using that by (auto simp: r_eq)
  ultimately show ?thesis
    unfolding Let_def d_def [symmetric] r_def [symmetric] by blast
qed

theorem adjust_section_alignment_rounds_down_witness:
  "adjust_section_alignment (example_helper 0x200 0x800) 0x2345 = 0x2200
   \<and> adjust_section_alignment (example_helper 0x200 0x1000) 0x2345 = 0x2000
   \<and> adjust_section_alignment (example_helper 0 0x800) 0x2345 = 0x2345
   \<and> adjust_section_alignment (example_helper 0x200 0x1000) 0x3000 = 0x3000"
proof -
  have a: "unat (adjust_section_alignment (example_helper 0x200 0x800) 0x2345) = unat (0x2200 :: u32)"
    using adjust_section_alignment_rounds_down [of "example_helper 0x200 0x800" "0x2345"]
    by (simp add: example_helper_def Let_def)
  have b: "unat (adjust_section_alignment (example_helper 0x200 0x1000) 0x2345) = unat (0x2000 :: u32)"
    using adjust_section_alignment_rounds_down [of "example_helper 0x200 0x1000" "0x2345"]
    by (simp add: example_helper_def Let_def)
  have c: "adjust_section_alignment (example_helper 0 0x800) 0x2345 = 0x2345"
    using adjust_section_alignment_rounds_down [of "example_helper 0 0x800" "0x2345"]
    by (simp add: example_helper_def Let_def)
  have d: "adjust_section_alignment (example_helper 0x200 0x1000) 0x3000 = 0x3000"
    using adjust_section_alignment_rounds_down [of "example_helper 0x200 0x1000" "0x3000"]
    by (simp add: example_helper_def Let_def)
  from a b c d show ?thesis
    by (simp only: word_unat_eq_iff [symmetric])
qed

section \<open>Properties of the byte stream and the header decoders\<close>

declare format_nat.simps [simp del]

lemma io_bind_Inr: "m s = (Inr x, s') \<Longrightarrow> io_bind m f s = f x s'"
  by (simp add: io_bind_def)

lemma io_bind_Inl: "m s = (Inl e, s') \<Longrightarrow> io_bind m f s = (Inl e, s')"
  by (simp add: io_bind_def)

lemma read_ok:
  "stream_pos s + n \<le> length (stream_data s) \<Longrightarrow>
   read n s = (Inr (take n (drop (stream_pos s) (stream_data s))),
               s\<lparr>stream_pos := stream_pos s + n\<rparr>)"
  by (simp add: read_def)

lemma read_eof:
  "length (stream_data s) < stream_pos s + n \<Longrightarrow> read n s = (Inl EofError, s)"
  by (simp add: read_def)

text \<open>
  A decoder that reads exactly \<open>n\<close> bytes: with \<open>n\<close> bytes left it returns a value and
  moves the cursor by \<open>n\<close>; with fewer it raises \<open>EofError\<close>; it changes nothing of the
  state but the cursor.
\<close>

lemma consumes_map:
  assumes m: "consumes n m"
  shows "consumes n (io_bind m (\<lambda>x. io_return (g x)))"
  unfolding consumes_def
proof (intro allI conjI impI)
  fix s :: "'a istream_scheme"
  assume "stream_pos s + n \<le> length (stream_data s)"
  with m obtain x where x: "m s = (Inr x, s\<lparr>stream_pos := stream_pos s + n\<rparr>)"
    unfolding consumes_def by blast
  then have "io_bind m (\<lambda>x. io_return (g x)) s = (Inr (g x), s\<lparr>stream_pos := stream_pos s + n\<rparr>)"
    by (simp add: io_bind_def io_return_def)
  then show "\<exists>y. io_bind m (\<lambda>x. io_return (g x)) s = (Inr y, s\<lparr>stream_pos := stream_pos s + n\<rparr>)" ..
next
  fix s :: "'a istream_scheme"
  assume "length (stream_data s) < stream_pos s + n"
  with m obtain p where "m s = (Inl EofError, s\<lparr>stream_pos := p\<rparr>)"
    unfolding consumes_def by blast
  then have "io_bind m (\<lambda>x. io_return (g x)) s = (Inl EofError, s\<lparr>stream_pos := p\<rparr>)"
    by (simp add: io_bind_def)
  then show "\<exists>p. io_bind m (\<lambda>x. io_return (g x)) s = (Inl EofError, s\<lparr>stream_pos := p\<rparr>)" ..
qed

lemma consumes_read: "consumes n (read n)"
  unfolding consumes_def
proof (intro allI conjI impI)
  fix s :: "'a istream_scheme"
  assume "stream_pos s + n \<le> length (stream_data s)"
  then show "\<exists>x. read n s = (Inr x, s\<lparr>stream_pos := stream_pos s + n\<rparr>)"
    by (simp add: read_def)
next
  fix s :: "'a istream_scheme"
  assume "length (stream_data s) < stream_pos s + n"
  then have "read n s = (Inl EofError, s\<lparr>stream_pos := stream_pos s\<rparr>)"
    by (simp add: read_def)
  then show "\<exists>p. read n s = (Inl EofError, s\<lparr>stream_pos := p\<rparr>)" ..
qed

lemma consumes_skip: "consumes n (skip n)"
  unfolding consumes_def
proof (intro allI conjI impI)
  fix s :: "'a istream_scheme"
  assume "stream_pos s + n \<le> length (stream_data s)"
  then show "\<exists>x. skip n s = (Inr x, s\<lparr>stream_pos := stream_pos s + n\<rparr>)"
    by (simp add: skip_def)
next
  fix s :: "'a istream_scheme"
  assume "length (stream_data s) < stream_pos s + n"
  then have "skip n s = (Inl EofError, s\<lparr>stream_pos := stream_pos s\<rparr>)"
    by (simp add: skip_def)
  then show "\<exists>p. skip n s = (Inl EofError, s\<lparr>stream_pos := p\<rparr>)" ..
qed

lemma consumes_bind:
  assumes m: "consumes n m" and f: "\<And>x. consumes k (f x)"
  shows "consumes (n + k) (io_bind m f)"
  unfolding consumes_def
proof (intro allI conjI impI)
  fix s :: "'a istream_scheme"
  assume ok: "stream_pos s + (n + k) \<le> length (stream_data s)"
  then have "stream_pos s + n \<le> length (stream_data s)" by simp
  with m obtain x where x: "m s = (Inr x, s\<lparr>stream_pos := stream_pos s + n\<rparr>)"
    unfolding consumes_def by blast
  let ?s1 = "s\<lparr>stream_pos := stream_pos s + n\<rparr>"
  have "stream_pos ?s1 + k \<le> length (stream_data ?s1)" using ok by simp
  with f [of x] obtain y where "f x ?s1 = (Inr y, ?s1\<lparr>stream_pos := stream_pos ?s1 + k\<rparr>)"
    unfolding consumes_def by blast
  with x have "io_bind m f s = (Inr y, s\<lparr>stream_pos := stream_pos s + (n + k)\<rparr>)"
    by (simp add: io_bind_def add.assoc)
  then show "\<exists>y. io_bind m f s = (Inr y, s\<lparr>stream_pos := stream_pos s + (n + k)\<rparr>)" ..
next
  fix s :: "'a istream_scheme"
  assume short: "length (stream_data s) < stream_pos s + (n + k)"
  show "\<exists>p. io_bind m f s = (Inl EofError, s\<lparr>stream_pos := p\<rparr>)"
  proof (cases "stream_pos s + n \<le> length (stream_data s)")
    case True
    with m obtain x where x: "m s = (Inr x, s\<lparr>stream_pos := stream_pos s + n\<rparr>)"
      unfolding consumes_def by blast
    let ?s1 = "s\<lparr>stream_pos := stream_pos s + n\<rparr>"
    have "length (stream_data ?s1) < stream_pos ?s1 + k" using short by simp
    with f [of x] obtain p where "f x ?s1 = (Inl EofError, ?s1\<lparr>stream_pos := p\<rparr>)"
      unfolding consumes_def by blast
    with x have "io_bind m f s = (Inl EofError, s\<lparr>stream_pos := p\<rparr>)"
      by (simp add: io_bind_def)
    then show ?thesis ..
  next
    case False
    then have "length (stream_data s) < stream_pos s + n" by simp
    with m obtain p where "m s = (Inl EofError, s\<lparr>stream_pos := p\<rparr>)"
      unfolding consumes_def by blast
    then have "io_bind m f s = (Inl EofError, s\<lparr>stream_pos := p\<rparr>)"
      by (simp add: io_bind_def)
    then show ?thesis ..
  qed
qed

lemma consumes_u8: "consumes 1 read_u8"
  unfolding read_u8_def by (rule consumes_map [OF consumes_read])

lemma consumes_u16: "consumes 2 read_le_u16"
  unfolding read_le_u16_def by (rule consumes_map [OF consumes_read])

lemma consumes_u32: "consumes 4 read_le_u32"
  unfolding read_le_u32_def by (rule consumes_map [OF consumes_read])

lemma consumes_u64: "consumes 8 read_le_u64"
  unfolding read_le_u64_def by (rule consumes_map [OF consumes_read])

lemmas consumes_intros =
  consumes_map consumes_bind consumes_read consumes_skip
  consumes_u8 consumes_u16 consumes_u32 consumes_u64

lemma consumes_DosHeader: "consumes 64 read_DosHeader"
proof -
  have "consumes (2 + (2 + (2 + (2 + (2 + (2 + (2 + (2 + (2 + (2 + (2 + (2 + (2 + (2
          + (2 * 4 + (2 + (2 + (2 * 10 + 4)))))))))))))))))) read_DosHeader"
    unfolding read_DosHeader_def by (intro consumes_intros)
  then show ?thesis by simp
qed

lemma consumes_ImageResourceDir: "consumes 16 read_ImageResourceDir"
proof -
  have "consumes (4 + (4 + (2 + (2 + (2 + 2))))) read_ImageResourceDir"
    unfolding read_ImageResourceDir_def by (intro consumes_intros)
  then show ?thesis by simp
qed

lemma consumes_ImageResourceDirEntry: "consumes 8 read_ImageResourceDirEntry"
proof -
  have "consumes (4 + 4) read_ImageResourceDirEntry"
    unfolding read_ImageResourceDirEntry_def by (intro consumes_intros)
  then show ?thesis by simp
qed

lemma consumes_ImageResourceDataEntry: "consumes 16 read_ImageResourceDataEntry"
proof -
  have "consumes (4 + (4 + (4 + 4))) read_ImageResourceDataEntry"
    unfolding read_ImageResourceDataEntry_def by (intro consumes_intros)
  then show ?thesis by simp
qed

lemma consumesD_ok:
  "consumes n m \<Longrightarrow> stream_pos s + n \<le> length (stream_data s) \<Longrightarrow>
   \<exists>x. m s = (Inr x, s\<lparr>stream_pos := stream_pos s + n\<rparr>)"
  unfolding consumes_def by blast

lemma consumesD_eof:
  "consumes n m \<Longrightarrow> length (stream_data s) < stream_pos s + n \<Longrightarrow>
   \<exists>p. m s = (Inl EofError, s\<lparr>stream_pos := p\<rparr>)"
  unfolding consumes_def by blast

lemma consumes_cases:
  assumes "consumes n m"
  obtains (ok) x where "stream_pos s + n \<le> length (stream_data s)"
      "m s = (Inr x, s\<lparr>stream_pos := stream_pos s + n\<rparr>)"
  | (eof) p where "length (stream_data s) < stream_pos s + n"
      "m s = (Inl EofError, s\<lparr>stream_pos := p\<rparr>)"
proof (cases "stream_pos s + n \<le> length (stream_data s)")
  case True
  with consumesD_ok [OF assms] ok show ?thesis by blast
next
  case False
  then have "length (stream_data s) < stream_pos s + n" by simp
  with consumesD_eof [OF assms] eof show ?thesis by blast
qed

lemma read_DosHeader_ok:
  assumes "stream_pos s + 64 \<le> length (stream_data s)"
  shows "\<exists>h. read_DosHeader s = (Inr h, s\<lparr>stream_pos := stream_pos s + 64\<rparr>)
     \<and> dos_magic h = take 2 (drop (stream_pos s) (stream_data s))
     \<and> e_lfanew h = le_word (take 4 (drop (stream_pos s + 60) (stream_data s)))"
  using assms
  by (simp add: read_DosHeader_def io_bind_def io_return_def read_le_u16_def read_le_u32_def
      read_def skip_def add.commute)

lemma consumes_is_recognized_impl: "consumes 64 is_recognized_impl"
  unfolding is_recognized_impl_def by (rule consumes_map [OF consumes_DosHeader])

lemma read_ImageOptionalHeader_32:
  assumes "stream_pos s + 96 \<le> length (stream_data s)"
    and "(le_word (take 2 (drop (stream_pos s) (stream_data s))) :: u16) \<noteq> 0x20B"
  shows "\<exists>h. read_ImageOptionalHeader s = (Inr h, s\<lparr>stream_pos := stream_pos s + 96\<rparr>)
     \<and> opt_magic h = le_word (take 2 (drop (stream_pos s) (stream_data s)))
     \<and> opt_section_alignment h = le_word (take 4 (drop (stream_pos s + 32) (stream_data s)))
     \<and> opt_file_alignment h = le_word (take 4 (drop (stream_pos s + 36) (stream_data s)))
     \<and> size_of_stack_reserve h = ucast (le_word (take 4 (drop (stream_pos s + 72) (stream_data s))) :: u32)
     \<and> size_of_stack_commit h = ucast (le_word (take 4 (drop (stream_pos s + 76) (stream_data s))) :: u32)
     \<and> size_of_heap_reserve h = ucast (le_word (take 4 (drop (stream_pos s + 80) (stream_data s))) :: u32)
     \<and> size_of_heap_commit h = ucast (le_word (take 4 (drop (stream_pos s + 84) (stream_data s))) :: u32)
     \<and> loader_flags h = le_word (take 4 (drop (stream_pos s + 88) (stream_data s)))
     \<and> number_of_rva_and_sizes h = le_word (take 4 (drop (stream_pos s + 92) (stream_data s)))"
  using assms
  by (simp add: read_ImageOptionalHeader_def read_stack_heap_sizes_def io_bind_def io_return_def
      read_u8_def read_le_u16_def read_le_u32_def read_def add.commute)

text \<open>
  C3, as the code has it. \<open>is_recognized_impl\<close> decodes the whole 64-byte DOS header
  before it compares the magic: with 64 bytes or more after the cursor it returns
  whether the first two are "MZ"; with fewer (a 2-byte file "MZ" included) it raises
  \<open>EofError\<close>.
\<close>

theorem is_recognized_impl_reads_dos_header:
  "(stream_pos s + 64 \<le> length (stream_data s) \<longrightarrow>
      is_recognized_impl s =
        (Inr (take 2 (drop (stream_pos s) (stream_data s)) = [0x4D, 0x5A]),
         s\<lparr>stream_pos := stream_pos s + 64\<rparr>))
   \<and> (length (stream_data s) < stream_pos s + 64 \<longrightarrow>
      fst (is_recognized_impl s) = Inl EofError)"
proof (intro conjI impI)
  assume "stream_pos s + 64 \<le> length (stream_data s)"
  from read_DosHeader_ok [OF this] obtain h where
    h: "read_DosHeader s = (Inr h, s\<lparr>stream_pos := stream_pos s + 64\<rparr>)"
       "dos_magic h = take 2 (drop (stream_pos s) (stream_data s))"
    by blast
  then show "is_recognized_impl s =
        (Inr (take 2 (drop (stream_pos s) (stream_data s)) = [0x4D, 0x5A]),
         s\<lparr>stream_pos := stream_pos s + 64\<rparr>)"
    by (simp add: is_recognized_impl_def io_bind_def io_return_def)
next
  assume "length (stream_data s) < stream_pos s + 64"
  from consumesD_eof [OF consumes_is_recognized_impl this]
  show "fst (is_recognized_impl s) = Inl EofError"
    by auto
qed

theorem is_recognized_impl_reads_dos_header_witness:
  "is_recognized_impl \<lparr>stream_data = [0x4D, 0x5A] @ replicate 62 0, stream_pos = 0\<rparr> =
     (Inr True, \<lparr>stream_data = [0x4D, 0x5A] @ replicate 62 0, stream_pos = 64\<rparr>)
   \<and> is_recognized_impl \<lparr>stream_data = [0x5A, 0x4D] @ replicate 62 0, stream_pos = 0\<rparr> =
     (Inr False, \<lparr>stream_data = [0x5A, 0x4D] @ replicate 62 0, stream_pos = 64\<rparr>)
   \<and> fst (is_recognized_impl \<lparr>stream_data = [0x4D, 0x5A] @ replicate 61 0, stream_pos = 0\<rparr>)
       = Inl EofError"
  using is_recognized_impl_reads_dos_header
      [of "\<lparr>stream_data = [0x4D, 0x5A] @ replicate 62 0, stream_pos = 0\<rparr>"]
    is_recognized_impl_reads_dos_header
      [of "\<lparr>stream_data = [0x5A, 0x4D] @ replicate 62 0, stream_pos = 0\<rparr>"]
    is_recognized_impl_reads_dos_header
      [of "\<lparr>stream_data = [0x4D, 0x5A] @ replicate 61 0, stream_pos = 0\<rparr>"]
  by simp

text \<open>
  C3 as the specification words it fails on the code: on the 2-byte input "MZ" the
  detection does not answer true, it raises \<open>EofError\<close>, because the fields after the
  magic are read as well.
\<close>

theorem is_recognized_impl_two_bytes_counterexample:
  "fst (is_recognized_impl \<lparr>stream_data = [0x4D, 0x5A], stream_pos = 0\<rparr>) = Inl EofError
   \<and> fst (is_recognized_impl \<lparr>stream_data = [0x4D, 0x5A], stream_pos = 0\<rparr>) \<noteq> Inr True"
  by (simp add: is_recognized_impl_def read_DosHeader_def io_bind_def io_return_def
      read_le_u16_def read_def)

text \<open>
  C2, as the code has it. The only test of the optional header's magic is
  \<open>magic == 0x20B\<close>. For every other magic, 0x10B or not, the header is decoded with the
  32-bit layout: with 96 bytes after the cursor the decoding succeeds, reads exactly 96
  bytes, and the four stack and heap sizes are the 4-byte little-endian values at
  offsets 72, 76, 80 and 84. No magic makes the decoding fail.
\<close>

theorem read_ImageOptionalHeader_other_magic:
  "stream_pos s + 96 \<le> length (stream_data s) \<and>
   (le_word (take 2 (drop (stream_pos s) (stream_data s))) :: u16) \<noteq> 0x20B \<longrightarrow>
   (\<exists>h. read_ImageOptionalHeader s = (Inr h, s\<lparr>stream_pos := stream_pos s + 96\<rparr>)
     \<and> opt_magic h = le_word (take 2 (drop (stream_pos s) (stream_data s)))
     \<and> size_of_stack_reserve h =
         ucast (le_word (take 4 (drop (stream_pos s + 72) (stream_data s))) :: u32)
     \<and> size_of_stack_commit h =
         ucast (le_word (take 4 (drop (stream_pos s + 76) (stream_data s))) :: u32)
     \<and> size_of_heap_reserve h =
         ucast (le_word (take 4 (drop (stream_pos s + 80) (stream_data s))) :: u32)
     \<and> size_of_heap_commit h =
         ucast (le_word (take 4 (drop (stream_pos s + 84) (stream_data s))) :: u32)
     \<and> loader_flags h = le_word (take 4 (drop (stream_pos s + 88) (stream_data s)))
     \<and> number_of_rva_and_sizes h = le_word (take 4 (drop (stream_pos s + 92) (stream_data s))))"
  using read_ImageOptionalHeader_32 [of s] by blast

lemma le_word_replicate_0: "le_word (replicate n 0) = 0"
  by (induction n) simp_all

theorem read_ImageOptionalHeader_other_magic_witness:
  "(\<exists>h. read_ImageOptionalHeader (example_optional_header 0x0B 0x01) =
          (Inr h, (example_optional_header 0x0B 0x01)\<lparr>stream_pos := 96\<rparr>)
      \<and> opt_magic h = 0x10B \<and> size_of_stack_reserve h = 1 \<and> size_of_stack_commit h = 2
      \<and> size_of_heap_reserve h = 3 \<and> size_of_heap_commit h = 4
      \<and> loader_flags h = 0 \<and> number_of_rva_and_sizes h = 0)"
  using read_ImageOptionalHeader_other_magic [of "example_optional_header 0x0B 0x01"]
  by (simp add: example_optional_header_def le_word_replicate_0)


section \<open>One step of the crawler's loop\<close>

lemma process_dir_entries_Suc:
  "process_dir_entries fuel args path (Suc n) s =
     (case read_ImageResourceDirEntry s of
        (Inl e, s1) \<Rightarrow> Some (Inl e, s1)
      | (Inr entry, s1) \<Rightarrow>
          (case peek (tell s1) (entry_body fuel args path entry) s1 of
             None \<Rightarrow> None
           | Some (Inl e, s2) \<Rightarrow>
               process_dir_entries fuel args path n
                 (s2\<lparr>logged := logged s2 @
                      [(base_offset args + unat (entry_offset_to_data entry), e)]\<rparr>)
           | Some (Inr _, s2) \<Rightarrow> process_dir_entries fuel args path n s2))"
proof -
  have eb: "entry_body fuel args path entry =
      (\<lambda>t. case read_entry_name args entry t of
              (Inl e, t1) \<Rightarrow> Some (Inl e, t1)
            | (Inr name, t1) \<Rightarrow>
                (if data_is_dir entry \<noteq> 0
                 then process_dir fuel args (unat (entry_offset_to_data entry))
                        (child_path path name) t1
                 else Some (process_entry args (unat (entry_offset_to_data entry))
                        (child_path path name) t1)))" for entry
    by (rule ext) (simp add: entry_body_def)
  show ?thesis unfolding process_dir_entries.simps eb ..
qed

declare process_dir_entries.simps(2) [simp del]
declare process_dir.simps(2) [simp del]

lemma process_dir_Suc:
  "process_dir (Suc fuel) args offset path s =
     (case seek (base_offset args + offset) s of
        (Inl e, s1) \<Rightarrow> Some (Inl e, s1)
      | (Inr _, s1) \<Rightarrow>
          (case read_ImageResourceDir s1 of
             (Inl e, s2) \<Rightarrow> Some (Inl e, s2)
           | (Inr dir, s2) \<Rightarrow>
               process_dir_entries fuel args path
                 (unat (number_of_named_entries dir) + unat (number_of_id_entries dir)) s2))"
  by (rule process_dir.simps(2))

text \<open>
  One turn of the loop, by cases. Either fewer than 8 bytes are left and the decoding
  of the entry raises \<open>EofError\<close> out of the loop; or the entry is decoded, its body runs
  at the cursor after the entry, and the loop goes on from that same cursor, with one
  line more in the log if the body threw.
\<close>

lemma process_dir_entries_step:
  obtains
    (eof) p where "length (stream_data s) < stream_pos s + 8"
      "process_dir_entries fuel args path (Suc n) s = Some (Inl EofError, s\<lparr>stream_pos := p\<rparr>)"
  | (ok) entry where "stream_pos s + 8 \<le> length (stream_data s)"
      "read_ImageResourceDirEntry s = (Inr entry, s\<lparr>stream_pos := stream_pos s + 8\<rparr>)"
      "process_dir_entries fuel args path (Suc n) s =
         (case entry_body fuel args path entry (s\<lparr>stream_pos := stream_pos s + 8\<rparr>) of
            None \<Rightarrow> None
          | Some (Inl e, s2) \<Rightarrow>
              process_dir_entries fuel args path n
                (s2\<lparr>stream_pos := stream_pos s + 8,
                    logged := logged s2 @
                      [(base_offset args + unat (entry_offset_to_data entry), e)]\<rparr>)
          | Some (Inr u, s2) \<Rightarrow>
              process_dir_entries fuel args path n (s2\<lparr>stream_pos := stream_pos s + 8\<rparr>))"
proof (cases rule: consumes_cases [OF consumes_ImageResourceDirEntry, of s])
  case (2 p)
  then have "process_dir_entries fuel args path (Suc n) s = Some (Inl EofError, s\<lparr>stream_pos := p\<rparr>)"
    by (simp add: process_dir_entries_Suc)
  with 2(1) show ?thesis by (rule eof)
next
  case (1 entry)
  let ?s1 = "s\<lparr>stream_pos := stream_pos s + 8\<rparr>"
  have seek: "seek (tell ?s1) ?s1 = (Inr (), ?s1)"
    using 1(1) by (simp add: seek_def tell_def)
  have "process_dir_entries fuel args path (Suc n) s =
         (case entry_body fuel args path entry ?s1 of
            None \<Rightarrow> None
          | Some (Inl e, s2) \<Rightarrow>
              process_dir_entries fuel args path n
                (s2\<lparr>stream_pos := stream_pos s + 8,
                    logged := logged s2 @
                      [(base_offset args + unat (entry_offset_to_data entry), e)]\<rparr>)
          | Some (Inr u, s2) \<Rightarrow>
              process_dir_entries fuel args path n (s2\<lparr>stream_pos := stream_pos s + 8\<rparr>))"
    using 1(2) seek
    by (simp add: process_dir_entries_Suc peek_def Let_def tell_def
        split: option.splits prod.splits sum.splits)
  with 1 show ?thesis by (rule ok)
qed

section \<open>What a crawl leaves behind\<close>

lemma read_entry_name_frame:
  assumes "read_entry_name args entry s = (r, s')"
  shows "stream_data s' = stream_data s \<and> meta_entries s' = meta_entries s
     \<and> logged s' = logged s"
  using assms
  by (auto simp: read_entry_name_def io_bind_def io_return_def io_throw_def seek_def
      read_le_u16_def read_def split: if_splits sum.splits prod.splits)

lemma process_entry_frame:
  assumes "process_entry args offset path s = (r, s')"
  shows "stream_data s' = stream_data s \<and> logged s' = logged s
     \<and> (meta_entries s' = meta_entries s
         \<or> (\<exists>e. meta_entries s' = meta_entries s @ [e] \<and> archive_path e = path))"
  using assms
  by (auto simp: process_entry_def read_ImageResourceDataEntry_def io_bind_def io_return_def
      io_throw_def seek_def skip_def read_le_u32_def read_def
      split: if_splits sum.splits prod.splits)

lemma crawl_extends_refl: "crawl_extends args path s s"
  by (simp add: crawl_extends_def)

lemma crawl_extends_same:
  "stream_data s' = stream_data s \<Longrightarrow> meta_entries s' = meta_entries s
   \<Longrightarrow> logged s' = logged s \<Longrightarrow> crawl_extends args path s s'"
  by (simp add: crawl_extends_def)

lemma crawl_extends_pos: "crawl_extends args path s s' \<Longrightarrow> crawl_extends args path s (s'\<lparr>stream_pos := p\<rparr>)"
  by (simp add: crawl_extends_def)

lemma crawl_extends_pos_log:
  "crawl_extends args path s s' \<Longrightarrow>
   crawl_extends args path s (s'\<lparr>stream_pos := p, logged := logged s' @ l\<rparr>)"
  by (auto simp: crawl_extends_def)

lemma crawl_extends_from_pos:
  "crawl_extends args path (s\<lparr>stream_pos := p\<rparr>) s' \<Longrightarrow> crawl_extends args path s s'"
  by (simp add: crawl_extends_def)

lemma crawl_extends_trans:
  assumes a: "crawl_extends args path s s1" and b: "crawl_extends args path s1 s2"
  shows "crawl_extends args path s s2"
proof -
  from a obtain l1 new1 where 1: "stream_data s1 = stream_data s" "logged s1 = logged s @ l1"
    "meta_entries s1 = meta_entries s @ new1"
    "\<forall>e \<in> set new1. \<exists>names. names \<noteq> []
        \<and> (\<forall>name \<in> set names. is_entry_name args (stream_data s) name)
        \<and> archive_path e = foldl child_path path names"
    unfolding crawl_extends_def by blast
  from b obtain l2 new2 where 2: "stream_data s2 = stream_data s1" "logged s2 = logged s1 @ l2"
    "meta_entries s2 = meta_entries s1 @ new2"
    "\<forall>e \<in> set new2. \<exists>names. names \<noteq> []
        \<and> (\<forall>name \<in> set names. is_entry_name args (stream_data s1) name)
        \<and> archive_path e = foldl child_path path names"
    unfolding crawl_extends_def by blast
  have "stream_data s2 = stream_data s" using 1(1) 2(1) by simp
  moreover have "logged s2 = logged s @ (l1 @ l2)" using 1(2) 2(2) by simp
  moreover have "meta_entries s2 = meta_entries s @ (new1 @ new2)" using 1(3) 2(3) by simp
  moreover have "\<forall>e \<in> set (new1 @ new2). \<exists>names. names \<noteq> []
        \<and> (\<forall>name \<in> set names. is_entry_name args (stream_data s) name)
        \<and> archive_path e = foldl child_path path names"
    using 1(4) 2(4) 1(1) by auto
  ultimately show ?thesis unfolding crawl_extends_def by blast
qed

lemma crawl_extends_child:
  assumes n: "is_entry_name args (stream_data s) name"
    and c: "crawl_extends args (child_path path name) s s'"
  shows "crawl_extends args path s s'"
proof -
  from c obtain l new where 1: "stream_data s' = stream_data s" "logged s' = logged s @ l"
    "meta_entries s' = meta_entries s @ new"
    "\<forall>e \<in> set new. \<exists>names. names \<noteq> []
        \<and> (\<forall>nm \<in> set names. is_entry_name args (stream_data s) nm)
        \<and> archive_path e = foldl child_path (child_path path name) names"
    unfolding crawl_extends_def by blast
  have "\<exists>names. names \<noteq> []
        \<and> (\<forall>nm \<in> set names. is_entry_name args (stream_data s) nm)
        \<and> archive_path e = foldl child_path path names" if "e \<in> set new" for e
  proof -
    from 1(4) that obtain names where
      "\<forall>nm \<in> set names. is_entry_name args (stream_data s) nm"
      "archive_path e = foldl child_path (child_path path name) names"
      by blast
    with n have "name # names \<noteq> []
        \<and> (\<forall>nm \<in> set (name # names). is_entry_name args (stream_data s) nm)
        \<and> archive_path e = foldl child_path path (name # names)"
      by simp
    then show ?thesis by blast
  qed
  with 1(1,2,3) show ?thesis unfolding crawl_extends_def by blast
qed

lemma crawl_extends_leaf:
  assumes n: "is_entry_name args (stream_data s) name"
    and p: "process_entry args offset (child_path path name) s = (r, s')"
  shows "crawl_extends args path s s'"
proof -
  from process_entry_frame [OF p]
  have f: "stream_data s' = stream_data s" "logged s' = logged s"
    "meta_entries s' = meta_entries s
       \<or> (\<exists>e. meta_entries s' = meta_entries s @ [e] \<and> archive_path e = child_path path name)"
    by blast+
  from f(3) show ?thesis
  proof
    assume "meta_entries s' = meta_entries s"
    with f(1,2) show ?thesis by (simp add: crawl_extends_same)
  next
    assume "\<exists>e. meta_entries s' = meta_entries s @ [e] \<and> archive_path e = child_path path name"
    then obtain e where e: "meta_entries s' = meta_entries s @ [e]"
      "archive_path e = child_path path name" by blast
    have "[name] \<noteq> [] \<and> (\<forall>nm \<in> set [name]. is_entry_name args (stream_data s) nm)
        \<and> archive_path e = foldl child_path path [name]"
      using n e(2) by simp
    then have "\<forall>e' \<in> set [e]. \<exists>names. names \<noteq> []
        \<and> (\<forall>nm \<in> set names. is_entry_name args (stream_data s) nm)
        \<and> archive_path e' = foldl child_path path names"
      by (metis list.set_cases list.inject list.distinct(1) empty_iff empty_set set_ConsD)
    with f(1,2) e(1) show ?thesis unfolding crawl_extends_def by (intro conjI exI [of _ "[e]"] exI [of _ "[]"]) simp_all
  qed
qed

lemma entry_body_extends:
  assumes IH: "\<And>offset path s r s'.
      process_dir fuel args offset path s = Some (r, s') \<Longrightarrow> crawl_extends args path s s'"
    and entry: "read_ImageResourceDirEntry s0 = (Inr entry, t)"
    and data: "stream_data t = stream_data s0"
    and body: "entry_body fuel args path entry t = Some (r, t')"
  shows "crawl_extends args path t t'"
proof (cases "read_entry_name args entry t")
  case (Pair res t1)
  from read_entry_name_frame [OF Pair]
  have same: "crawl_extends args path t t1" and d1: "stream_data t1 = stream_data t"
    by (simp_all add: crawl_extends_same)
  show ?thesis
  proof (cases res)
    case (Inl e)
    with Pair body have "t' = t1" by (simp add: entry_body_def)
    with same show ?thesis by simp
  next
    case (Inr name)
    from Pair entry data have "stream_data s0 = stream_data t
        \<and> read_ImageResourceDirEntry s0 = (Inr entry, t)
        \<and> read_entry_name args entry t = (Inr name, t1)"
      using Inr by simp
    then have "is_entry_name args (stream_data t) name"
      unfolding is_entry_name_def by (intro exI)
    then have name: "is_entry_name args (stream_data t1) name" by (simp add: d1)
    have "crawl_extends args path t1 t'"
    proof (cases "data_is_dir entry \<noteq> 0")
      case True
      with Pair Inr body have "process_dir fuel args (unat (entry_offset_to_data entry))
          (child_path path name) t1 = Some (r, t')"
        by (simp add: entry_body_def)
      from crawl_extends_child [OF name IH [OF this]] show ?thesis .
    next
      case False
      with Pair Inr body have "process_entry args (unat (entry_offset_to_data entry))
          (child_path path name) t1 = (r, t')"
        by (simp add: entry_body_def)
      from crawl_extends_leaf [OF name this] show ?thesis .
    qed
    with same show ?thesis by (rule crawl_extends_trans)
  qed
qed

lemma process_dir_entries_extends:
  assumes IH: "\<And>offset path s r s'.
      process_dir fuel args offset path s = Some (r, s') \<Longrightarrow> crawl_extends args path s s'"
  shows "process_dir_entries fuel args path n s = Some (r, s') \<Longrightarrow> crawl_extends args path s s'"
proof (induction n arbitrary: s)
  case 0
  then show ?case by (simp add: crawl_extends_refl)
next
  case (Suc n)
  show ?case
  proof (cases rule: process_dir_entries_step [of s fuel args path n])
    case (eof p)
    with Suc.prems have "s' = s\<lparr>stream_pos := p\<rparr>" by simp
    then show ?thesis by (simp add: crawl_extends_same)
  next
    case (ok entry)
    let ?s1 = "s\<lparr>stream_pos := stream_pos s + 8\<rparr>"
    show ?thesis
    proof (cases "entry_body fuel args path entry ?s1")
      case None
      with ok(3) Suc.prems show ?thesis by simp
    next
      case (Some res)
      obtain r2 s2 where res: "res = (r2, s2)" by (cases res)
      from Some res have body: "entry_body fuel args path entry ?s1 = Some (r2, s2)" by simp
      have "stream_data ?s1 = stream_data s" by simp
      from entry_body_extends [OF IH ok(2) this body]
      have e12: "crawl_extends args path ?s1 s2" .
      show ?thesis
      proof (cases r2)
        case (Inl e)
        let ?s3 = "s2\<lparr>stream_pos := stream_pos s + 8,
                    logged := logged s2 @
                      [(base_offset args + unat (entry_offset_to_data entry), e)]\<rparr>"
        from ok(3) body Inl Suc.prems
        have "process_dir_entries fuel args path n ?s3 = Some (r, s')" by simp
        from Suc.IH [OF this] have "crawl_extends args path ?s3 s'" .
        with crawl_extends_pos_log [OF e12] have "crawl_extends args path ?s1 s'"
          by (rule crawl_extends_trans)
        then show ?thesis by (rule crawl_extends_from_pos)
      next
        case (Inr u)
        let ?s3 = "s2\<lparr>stream_pos := stream_pos s + 8\<rparr>"
        from ok(3) body Inr Suc.prems
        have "process_dir_entries fuel args path n ?s3 = Some (r, s')" by simp
        from Suc.IH [OF this] have "crawl_extends args path ?s3 s'" .
        with crawl_extends_pos [OF e12] have "crawl_extends args path ?s1 s'"
          by (rule crawl_extends_trans)
        then show ?thesis by (rule crawl_extends_from_pos)
      qed
    qed
  qed
qed

lemma process_dir_extends:
  "process_dir fuel args offset path s = Some (r, s') \<Longrightarrow> crawl_extends args path s s'"
proof (induction fuel arbitrary: offset path s r s')
  case 0
  then show ?case by simp
next
  case (Suc fuel)
  show ?case
  proof (cases "seek (base_offset args + offset) s")
    case (Pair r1 s1)
    have s1: "stream_data s1 = stream_data s \<and> meta_entries s1 = meta_entries s
        \<and> logged s1 = logged s"
      using Pair by (auto simp: seek_def split: if_splits)
    then have e1: "crawl_extends args path s s1" by (simp add: crawl_extends_same)
    show ?thesis
    proof (cases r1)
      case (Inl e)
      with Pair Suc.prems have "s' = s1" by (simp add: process_dir_Suc)
      with e1 show ?thesis by simp
    next
      case (Inr u)
      show ?thesis
      proof (cases rule: consumes_cases [OF consumes_ImageResourceDir, of s1])
        case (2 p)
        with Pair Inr Suc.prems have "s' = s1\<lparr>stream_pos := p\<rparr>"
          by (simp add: process_dir_Suc)
        with e1 show ?thesis by (simp add: crawl_extends_pos)
      next
        case (1 dir)
        let ?s2 = "s1\<lparr>stream_pos := stream_pos s1 + 16\<rparr>"
        from 1 Pair Inr Suc.prems
        have "process_dir_entries fuel args path
            (unat (number_of_named_entries dir) + unat (number_of_id_entries dir)) ?s2
            = Some (r, s')"
          by (simp add: process_dir_Suc)
        from process_dir_entries_extends [OF Suc.IH this]
        have "crawl_extends args path ?s2 s'" .
        then have "crawl_extends args path s1 s'" by (rule crawl_extends_from_pos)
        with e1 show ?thesis by (rule crawl_extends_trans)
      qed
    qed
  qed
qed

lemma process_dir_entries_extends_all:
  "process_dir_entries fuel args path n s = Some (r, s') \<Longrightarrow> crawl_extends args path s s'"
  by (rule process_dir_entries_extends [OF process_dir_extends])

section \<open>The loop over the entries of one directory\<close>

lemma crawl_extends_data: "crawl_extends args path s s' \<Longrightarrow> stream_data s' = stream_data s"
  by (simp add: crawl_extends_def)

lemma entry_body_data:
  assumes "read_ImageResourceDirEntry s0 = (Inr entry, t)" "stream_data t = stream_data s0"
    and "entry_body fuel args path entry t = Some (r, t')"
  shows "stream_data t' = stream_data t"
  using entry_body_extends [OF process_dir_extends assms] by (rule crawl_extends_data)

lemma peek_restores:
  "peek offset func s = Some (r, s') \<Longrightarrow> stream_pos s' = stream_pos s"
  by (auto simp: peek_def Let_def tell_def seek_def split: if_splits option.splits prod.splits)

lemma process_dir_entries_pos:
  "process_dir_entries fuel args path n s = Some (Inr u, s') \<Longrightarrow>
   stream_pos s' = stream_pos s + 8 * n"
proof (induction n arbitrary: s)
  case 0
  then show ?case by simp
next
  case (Suc n)
  show ?case
  proof (cases rule: process_dir_entries_step [of s fuel args path n])
    case (eof p)
    with Suc.prems show ?thesis by simp
  next
    case (ok entry)
    let ?s1 = "s\<lparr>stream_pos := stream_pos s + 8\<rparr>"
    from ok(3) Suc.prems obtain r2 s2 where
      body: "entry_body fuel args path entry ?s1 = Some (r2, s2)"
      by (cases "entry_body fuel args path entry ?s1") auto
    show ?thesis
    proof (cases r2)
      case (Inl e)
      with ok(3) body Suc.prems have "process_dir_entries fuel args path n
          (s2\<lparr>stream_pos := stream_pos s + 8,
              logged := logged s2 @
                [(base_offset args + unat (entry_offset_to_data entry), e)]\<rparr>)
          = Some (Inr u, s')" by simp
      from Suc.IH [OF this] show ?thesis by simp
    next
      case (Inr v)
      with ok(3) body Suc.prems have "process_dir_entries fuel args path n
          (s2\<lparr>stream_pos := stream_pos s + 8\<rparr>) = Some (Inr u, s')" by simp
      from Suc.IH [OF this] show ?thesis by simp
    qed
  qed
qed

lemma process_dir_entries_no_abort:
  "stream_pos s + 8 * n \<le> length (stream_data s) \<Longrightarrow>
   process_dir_entries fuel args path n s = Some (r, s') \<Longrightarrow> r = Inr ()"
proof (induction n arbitrary: s)
  case 0
  then show ?case by simp
next
  case (Suc n)
  show ?case
  proof (cases rule: process_dir_entries_step [of s fuel args path n])
    case (eof p)
    with Suc.prems(1) show ?thesis by simp
  next
    case (ok entry)
    let ?s1 = "s\<lparr>stream_pos := stream_pos s + 8\<rparr>"
    from ok(3) Suc.prems(2) obtain r2 s2 where
      body: "entry_body fuel args path entry ?s1 = Some (r2, s2)"
      by (cases "entry_body fuel args path entry ?s1") auto
    have "stream_data ?s1 = stream_data s" by simp
    from entry_body_data [OF ok(2) this body] have d2: "stream_data s2 = stream_data s"
      by simp
    show ?thesis
    proof (cases r2)
      case (Inl e)
      let ?s3 = "s2\<lparr>stream_pos := stream_pos s + 8,
              logged := logged s2 @
                [(base_offset args + unat (entry_offset_to_data entry), e)]\<rparr>"
      from Inl ok(3) body Suc.prems(2)
      have run: "process_dir_entries fuel args path n ?s3 = Some (r, s')" by simp
      have "stream_pos ?s3 + 8 * n \<le> length (stream_data ?s3)"
        using Suc.prems(1) d2 by simp
      from Suc.IH [OF this run] show ?thesis .
    next
      case (Inr v)
      let ?s3 = "s2\<lparr>stream_pos := stream_pos s + 8\<rparr>"
      from Inr ok(3) body Suc.prems(2)
      have run: "process_dir_entries fuel args path n ?s3 = Some (r, s')" by simp
      have "stream_pos ?s3 + 8 * n \<le> length (stream_data ?s3)"
        using Suc.prems(1) d2 by simp
      from Suc.IH [OF this run] show ?thesis .
    qed
  qed
qed

lemma process_dir_entries_abort_eof:
  "process_dir_entries fuel args path n s = Some (Inl e, s') \<Longrightarrow> e = EofError"
proof (induction n arbitrary: s)
  case 0
  then show ?case by simp
next
  case (Suc n)
  show ?case
  proof (cases rule: process_dir_entries_step [of s fuel args path n])
    case (eof p)
    with Suc.prems show ?thesis by simp
  next
    case (ok entry)
    let ?s1 = "s\<lparr>stream_pos := stream_pos s + 8\<rparr>"
    from ok(3) Suc.prems obtain r2 s2 where
      body: "entry_body fuel args path entry ?s1 = Some (r2, s2)"
      by (cases "entry_body fuel args path entry ?s1") auto
    show ?thesis
    proof (cases r2)
      case (Inl e2)
      with ok(3) body Suc.prems have "process_dir_entries fuel args path n
          (s2\<lparr>stream_pos := stream_pos s + 8,
              logged := logged s2 @
                [(base_offset args + unat (entry_offset_to_data entry), e2)]\<rparr>)
          = Some (Inl e, s')" by simp
      from Suc.IH [OF this] show ?thesis .
    next
      case (Inr v)
      with ok(3) body Suc.prems have "process_dir_entries fuel args path n
          (s2\<lparr>stream_pos := stream_pos s + 8\<rparr>) = Some (Inl e, s')" by simp
      from Suc.IH [OF this] show ?thesis .
    qed
  qed
qed

lemma process_dir_entries_turn:
  assumes "read_ImageResourceDirEntry s = (Inr entry, s1)"
  shows "s1 = s\<lparr>stream_pos := stream_pos s + 8\<rparr>
    \<and> stream_pos s + 8 \<le> length (stream_data s)
    \<and> process_dir_entries fuel args path (Suc n) s =
         (case entry_body fuel args path entry (s\<lparr>stream_pos := stream_pos s + 8\<rparr>) of
            None \<Rightarrow> None
          | Some (Inl e, s2) \<Rightarrow>
              process_dir_entries fuel args path n
                (s2\<lparr>stream_pos := stream_pos s + 8,
                    logged := logged s2 @
                      [(base_offset args + unat (entry_offset_to_data entry), e)]\<rparr>)
          | Some (Inr u, s2) \<Rightarrow>
              process_dir_entries fuel args path n (s2\<lparr>stream_pos := stream_pos s + 8\<rparr>))"
proof (cases rule: process_dir_entries_step [of s fuel args path n])
  case (eof p)
  from consumesD_eof [OF consumes_ImageResourceDirEntry eof(1)] assms
  show ?thesis by auto
next
  case (ok entry')
  from assms ok(2) have e: "entry' = entry"
    and s1: "s1 = s\<lparr>stream_pos := stream_pos s + 8\<rparr>" by simp_all
  from s1 ok(1) ok(3) [unfolded e] show ?thesis by (intro conjI)
qed

lemma process_dir_header_eof:
  assumes "length (stream_data s) < base_offset args + offset + 16"
  shows "\<exists>s'. process_dir (Suc fuel) args offset path s = Some (Inl EofError, s')"
proof (cases "base_offset args + offset > length (stream_data s)")
  case True
  then show ?thesis by (simp add: process_dir_Suc seek_def)
next
  case False
  let ?s1 = "s\<lparr>stream_pos := base_offset args + offset\<rparr>"
  from False have seek: "seek (base_offset args + offset) s = (Inr (), ?s1)"
    by (simp add: seek_def)
  have "length (stream_data ?s1) < stream_pos ?s1 + 16" using assms by simp
  from consumesD_eof [OF consumes_ImageResourceDir this]
  obtain p where "read_ImageResourceDir ?s1 = (Inl EofError, ?s1\<lparr>stream_pos := p\<rparr>)" by blast
  with seek show ?thesis by (simp add: process_dir_Suc)
qed

section \<open>Evaluating the crawler on the examples\<close>

lemma process_dir_entries_numeral:
  "process_dir_entries fuel args path (numeral k) s =
   process_dir_entries fuel args path (Suc (pred_numeral k)) s"
  by (simp add: numeral_eq_Suc)

lemmas crawl_eval =
  crawl_def process_dir_Suc process_dir_entries_Suc process_dir_entries_numeral
  entry_body_def peek_def tell_def Let_def
  read_ImageResourceDir_def read_ImageResourceDirEntry_def read_ImageResourceDataEntry_def
  read_entry_name_def process_entry_def child_path_def resource_type_name_def
  io_bind_def io_return_def io_throw_def seek_def skip_def read_def read_le_u16_def
  read_le_u32_def utf16_to_utf8_def utf8_encode_def str_def path_sep_def
  rva_to_offset_def section_for_rva_def adjust_file_alignment_def
  adjust_section_alignment_def example_helper_def example_section_def example_args_def
  example_state_def example_at_def example_entry_def

lemma format_d_1033: "format_d 1033 = ''1033''"
  by (simp add: format_d_def format_nat.simps)

lemma example_tree_entry0:
  "read_ImageResourceDirEntry (example_at example_tree 16) =
     (Inr \<lparr>entry_offset_to_data = 0, name_is_string = True, name_offset = 0xFFFF,
           entry_name = 0x8000FFFF, entry_id = 0x8000FFFF, data_is_dir = 0\<rparr>,
      example_at example_tree 24)"
  by (simp add: crawl_eval example_tree_def)

lemma example_tree_body0:
  "entry_body (Suc (Suc 0)) example_args []
     \<lparr>entry_offset_to_data = 0, name_is_string = True, name_offset = 0xFFFF,
      entry_name = 0x8000FFFF, entry_id = 0x8000FFFF, data_is_dir = 0\<rparr>
     (example_at example_tree 24)
   = Some (Inl EofError, example_at example_tree 24)"
  by (simp add: crawl_eval example_tree_def)

lemma example_tree_entry1:
  "read_ImageResourceDirEntry (example_at example_tree 24) =
     (Inr \<lparr>entry_offset_to_data = 36, name_is_string = True, name_offset = 32,
           entry_name = 0x80000020, entry_id = 0x80000020, data_is_dir = 1\<rparr>,
      example_at example_tree 32)"
  by (simp add: crawl_eval example_tree_def)

lemma example_tree_body1:
  "entry_body (Suc (Suc 0)) example_args []
     \<lparr>entry_offset_to_data = 36, name_is_string = True, name_offset = 32,
      entry_name = 0x80000020, entry_id = 0x80000020, data_is_dir = 1\<rparr>
     (example_at example_tree 32)
   = Some (Inr (),
       (example_at example_tree 60)
         \<lparr>meta_entries := [example_entry (''A'' @ path_sep @ ''ICON'' @ path_sep @ ''1033'')]\<rparr>)"
  by (simp add: crawl_eval example_tree_def format_d_1033)

lemma example_tree_entries:
  "process_dir_entries (Suc (Suc 0)) example_args [] 2 (example_at example_tree 16) =
     Some (Inr (),
       (example_at example_tree 32)
         \<lparr>meta_entries := [example_entry (''A'' @ path_sep @ ''ICON'' @ path_sep @ ''1033'')],
          logged := [(0, EofError)]\<rparr>)"
  by (simp add: crawl_eval example_tree_def format_d_1033)


lemma truncated_tree_entries:
  "process_dir_entries 0 example_args [] 2 (example_at truncated_tree 16) =
     Some (Inl EofError,
       (example_at truncated_tree 24)\<lparr>meta_entries := [example_entry ''CURSOR'']\<rparr>)"
  by (simp add: crawl_eval truncated_tree_def)

lemma truncated_tree_crawl:
  "crawl (Suc 0) example_args (example_state truncated_tree) =
     Some (Inl EofError,
       (example_at truncated_tree 24)\<lparr>meta_entries := [example_entry ''CURSOR'']\<rparr>)"
  by (simp add: crawl_eval truncated_tree_def)

section \<open>The cursor and the failures of one directory\<close>

text \<open>
  C8. \<open>peek\<close> gives back the cursor it found, whatever its function did and whether it
  returned or threw. So in the loop of \<open>process_dir\<close>, once an entry is decoded, the
  turn that resolves its name and descends into it (a turn that returns) leaves the
  cursor right after that entry's record, 8 bytes after its start, for the next
  sibling; and a loop over \<open>n\<close> entries that returns has moved the cursor by \<open>8 * n\<close>.
\<close>

theorem process_dir_entries_restores_cursor:
  "(peek offset func s0 = Some (r0, s0') \<longrightarrow> stream_pos s0' = stream_pos s0)
   \<and> (read_ImageResourceDirEntry s = (Inr entry, s1)
        \<and> entry_body fuel args path entry s1 = Some (r2, s2) \<longrightarrow>
        stream_pos s1 = stream_pos s + 8
        \<and> (\<exists>s3. stream_pos s3 = stream_pos s1 \<and> stream_data s3 = stream_data s
              \<and> process_dir_entries fuel args path (Suc n) s =
                  process_dir_entries fuel args path n s3))
   \<and> (process_dir_entries fuel args path n s = Some (Inr u, s') \<longrightarrow>
        stream_pos s' = stream_pos s + 8 * n)"
proof (intro conjI impI)
  assume "peek offset func s0 = Some (r0, s0')"
  then show "stream_pos s0' = stream_pos s0" by (rule peek_restores)
next
  assume a: "read_ImageResourceDirEntry s = (Inr entry, s1)
        \<and> entry_body fuel args path entry s1 = Some (r2, s2)"
  from process_dir_entries_turn [of s entry s1 fuel args path n] a
  have s1: "s1 = s\<lparr>stream_pos := stream_pos s + 8\<rparr>"
    and run: "process_dir_entries fuel args path (Suc n) s =
         (case entry_body fuel args path entry (s\<lparr>stream_pos := stream_pos s + 8\<rparr>) of
            None \<Rightarrow> None
          | Some (Inl e, s2) \<Rightarrow>
              process_dir_entries fuel args path n
                (s2\<lparr>stream_pos := stream_pos s + 8,
                    logged := logged s2 @
                      [(base_offset args + unat (entry_offset_to_data entry), e)]\<rparr>)
          | Some (Inr u, s2) \<Rightarrow>
              process_dir_entries fuel args path n (s2\<lparr>stream_pos := stream_pos s + 8\<rparr>))"
    by blast+
  from s1 show p1: "stream_pos s1 = stream_pos s + 8" by simp
  from a s1 have body: "entry_body fuel args path entry (s\<lparr>stream_pos := stream_pos s + 8\<rparr>)
      = Some (r2, s2)" by simp
  have "stream_data s1 = stream_data s" using s1 by simp
  from entry_body_data [OF conjunct1 [OF a] this conjunct2 [OF a]] s1
  have d2: "stream_data s2 = stream_data s" by simp
  show "\<exists>s3. stream_pos s3 = stream_pos s1 \<and> stream_data s3 = stream_data s
              \<and> process_dir_entries fuel args path (Suc n) s =
                  process_dir_entries fuel args path n s3"
  proof (cases r2)
    case (Inl e)
    let ?s3 = "s2\<lparr>stream_pos := stream_pos s + 8,
                    logged := logged s2 @
                      [(base_offset args + unat (entry_offset_to_data entry), e)]\<rparr>"
    from run body Inl have "process_dir_entries fuel args path (Suc n) s =
        process_dir_entries fuel args path n ?s3" by simp
    with p1 d2 show ?thesis by (intro exI [of _ ?s3]) simp
  next
    case (Inr v)
    let ?s3 = "s2\<lparr>stream_pos := stream_pos s + 8\<rparr>"
    from run body Inr have "process_dir_entries fuel args path (Suc n) s =
        process_dir_entries fuel args path n ?s3" by simp
    with p1 d2 show ?thesis by (intro exI [of _ ?s3]) simp
  qed
next
  assume "process_dir_entries fuel args path n s = Some (Inr u, s')"
  then show "stream_pos s' = stream_pos s + 8 * n" by (rule process_dir_entries_pos)
qed

theorem process_dir_entries_restores_cursor_witness:
  "peek 4 (\<lambda>t. Some (read_le_u32 t)) (example_at example_tree 16) =
     Some (Inr 0, example_at example_tree 16)
   \<and> read_ImageResourceDirEntry (example_at example_tree 16) =
       (Inr \<lparr>entry_offset_to_data = 0, name_is_string = True, name_offset = 0xFFFF,
             entry_name = 0x8000FFFF, entry_id = 0x8000FFFF, data_is_dir = 0\<rparr>,
        example_at example_tree 24)
   \<and> entry_body (Suc (Suc 0)) example_args []
        \<lparr>entry_offset_to_data = 0, name_is_string = True, name_offset = 0xFFFF,
         entry_name = 0x8000FFFF, entry_id = 0x8000FFFF, data_is_dir = 0\<rparr>
        (example_at example_tree 24)
       = Some (Inl EofError, example_at example_tree 24)
   \<and> (\<exists>s3. stream_pos s3 = 24 \<and> stream_data s3 = example_tree
         \<and> process_dir_entries (Suc (Suc 0)) example_args [] (Suc (Suc 0))
              (example_at example_tree 16)
            = process_dir_entries (Suc (Suc 0)) example_args [] (Suc 0) s3)
   \<and> entry_body (Suc (Suc 0)) example_args []
        \<lparr>entry_offset_to_data = 36, name_is_string = True, name_offset = 32,
         entry_name = 0x80000020, entry_id = 0x80000020, data_is_dir = 1\<rparr>
        (example_at example_tree 32)
       = Some (Inr (),
           (example_at example_tree 60)
             \<lparr>meta_entries :=
                [example_entry (''A'' @ path_sep @ ''ICON'' @ path_sep @ ''1033'')]\<rparr>)
   \<and> (\<exists>s3. stream_pos s3 = 32 \<and> stream_data s3 = example_tree
         \<and> process_dir_entries (Suc (Suc 0)) example_args [] (Suc 0)
              (example_at example_tree 24)
            = process_dir_entries (Suc (Suc 0)) example_args [] 0 s3)
   \<and> process_dir_entries (Suc (Suc 0)) example_args [] 2 (example_at example_tree 16) =
       Some (Inr (),
         (example_at example_tree 32)
           \<lparr>meta_entries :=
              [example_entry (''A'' @ path_sep @ ''ICON'' @ path_sep @ ''1033'')],
            logged := [(0, EofError)]\<rparr>)
   \<and> stream_pos ((example_at example_tree 32)
           \<lparr>meta_entries :=
              [example_entry (''A'' @ path_sep @ ''ICON'' @ path_sep @ ''1033'')],
            logged := [(0, EofError)]\<rparr>) = 16 + 8 * 2"
proof -
  have pk: "peek 4 (\<lambda>t. Some (read_le_u32 t)) (example_at example_tree 16) =
     Some (Inr 0, example_at example_tree 16)"
    by (simp add: crawl_eval example_tree_def)
  have fail: "\<exists>s3. stream_pos s3 = 24 \<and> stream_data s3 = example_tree
         \<and> process_dir_entries (Suc (Suc 0)) example_args [] (Suc (Suc 0))
              (example_at example_tree 16)
            = process_dir_entries (Suc (Suc 0)) example_args [] (Suc 0) s3"
    using process_dir_entries_restores_cursor
        [THEN conjunct2, THEN conjunct1, rule_format,
         OF conjI [OF example_tree_entry0 example_tree_body0], of "Suc 0"]
    by (simp add: example_at_def)
  have good: "\<exists>s3. stream_pos s3 = 32 \<and> stream_data s3 = example_tree
         \<and> process_dir_entries (Suc (Suc 0)) example_args [] (Suc 0)
              (example_at example_tree 24)
            = process_dir_entries (Suc (Suc 0)) example_args [] 0 s3"
    using process_dir_entries_restores_cursor
        [THEN conjunct2, THEN conjunct1, rule_format,
         OF conjI [OF example_tree_entry1 example_tree_body1], of 0]
    by (simp add: example_at_def)
  have pos: "stream_pos ((example_at example_tree 32)
           \<lparr>meta_entries :=
              [example_entry (''A'' @ path_sep @ ''ICON'' @ path_sep @ ''1033'')],
            logged := [(0, EofError)]\<rparr>) = 16 + 8 * 2"
    using process_dir_entries_restores_cursor
        [THEN conjunct2, THEN conjunct2, rule_format, OF example_tree_entries]
      process_dir_entries_restores_cursor
        [THEN conjunct1, rule_format, OF pk]
    by (simp add: example_at_def)
  from pk example_tree_entry0 example_tree_body0 fail example_tree_entry1
    example_tree_body1 good example_tree_entries pos
  show ?thesis by (intro conjI)
qed

text \<open>
  C4, as the code has it. The \<open>try\<close> block of \<open>process_dir\<close> holds the resolution of the
  entry's name and the processing of what the entry points to; the decoding of the
  entry's own 8-byte record and of the directory's header stand outside it. So:
  a directory whose \<open>n\<close> entry records lie within the data never fails, whatever
  happens inside its entries (given that they return); a failure of an entry's body
  adds one line to the log, made of \<open>base_offset + offset_to_data\<close> and the cause, and
  the loop goes on with the next sibling; the loop fails only with \<open>EofError\<close>, when the
  records themselves run beyond the data, and that failure, like a failure to read the
  directory's header, leaves \<open>process_dir\<close>.
\<close>

theorem process_dir_entries_fault_isolation:
  "(stream_pos s + 8 * n \<le> length (stream_data s)
      \<and> process_dir_entries fuel args path n s = Some (r, s') \<longrightarrow> r = Inr ())
   \<and> (process_dir_entries fuel args path n s = Some (Inl e, s') \<longrightarrow>
        e = EofError \<and> length (stream_data s) < stream_pos s + 8 * n)
   \<and> (read_ImageResourceDirEntry s = (Inr entry, s1)
        \<and> entry_body fuel args path entry s1 = Some (Inl e2, s2) \<longrightarrow>
        process_dir_entries fuel args path (Suc n) s =
          process_dir_entries fuel args path n
            (s2\<lparr>stream_pos := stream_pos s + 8,
                logged := logged s2 @
                  [(base_offset args + unat (entry_offset_to_data entry), e2)]\<rparr>))
   \<and> (read_ImageResourceDirEntry s = (Inr entry, s1)
        \<and> entry_body fuel args path entry s1 = Some (Inr u, s2) \<longrightarrow>
        process_dir_entries fuel args path (Suc n) s =
          process_dir_entries fuel args path n (s2\<lparr>stream_pos := stream_pos s + 8\<rparr>))
   \<and> (length (stream_data s) < stream_pos s + 8 \<longrightarrow>
        (\<exists>p. process_dir_entries fuel args path (Suc n) s =
              Some (Inl EofError, s\<lparr>stream_pos := p\<rparr>)))
   \<and> (length (stream_data s) < base_offset args + offset + 16 \<longrightarrow>
        (\<exists>s''. process_dir (Suc fuel) args offset path s = Some (Inl EofError, s'')))"
proof (intro conjI impI)
  assume "stream_pos s + 8 * n \<le> length (stream_data s)
      \<and> process_dir_entries fuel args path n s = Some (r, s')"
  then show "r = Inr ()" using process_dir_entries_no_abort by blast
next
  assume a: "process_dir_entries fuel args path n s = Some (Inl e, s')"
  then show "e = EofError" by (rule process_dir_entries_abort_eof)
  show "length (stream_data s) < stream_pos s + 8 * n"
  proof (rule ccontr)
    assume "\<not> length (stream_data s) < stream_pos s + 8 * n"
    then have "stream_pos s + 8 * n \<le> length (stream_data s)" by simp
    from process_dir_entries_no_abort [OF this a] show False by simp
  qed
next
  assume a: "read_ImageResourceDirEntry s = (Inr entry, s1)
        \<and> entry_body fuel args path entry s1 = Some (Inl e2, s2)"
  from process_dir_entries_turn [of s entry s1 fuel args path n] a
  show "process_dir_entries fuel args path (Suc n) s =
          process_dir_entries fuel args path n
            (s2\<lparr>stream_pos := stream_pos s + 8,
                logged := logged s2 @
                  [(base_offset args + unat (entry_offset_to_data entry), e2)]\<rparr>)"
    by auto
next
  assume a: "read_ImageResourceDirEntry s = (Inr entry, s1)
        \<and> entry_body fuel args path entry s1 = Some (Inr u, s2)"
  from process_dir_entries_turn [of s entry s1 fuel args path n] a
  show "process_dir_entries fuel args path (Suc n) s =
          process_dir_entries fuel args path n (s2\<lparr>stream_pos := stream_pos s + 8\<rparr>)"
    by auto
next
  assume a: "length (stream_data s) < stream_pos s + 8"
  show "\<exists>p. process_dir_entries fuel args path (Suc n) s =
              Some (Inl EofError, s\<lparr>stream_pos := p\<rparr>)"
  proof (cases rule: process_dir_entries_step [of s fuel args path n])
    case (eof p)
    then show ?thesis by blast
  next
    case (ok entry')
    with a show ?thesis by simp
  qed
next
  assume "length (stream_data s) < base_offset args + offset + 16"
  then show "\<exists>s''. process_dir (Suc fuel) args offset path s = Some (Inl EofError, s'')"
    by (rule process_dir_header_eof)
qed

theorem process_dir_entries_fault_isolation_witness:
  "stream_pos (example_at example_tree 16) + 8 * 2
     \<le> length (stream_data (example_at example_tree 16))
   \<and> process_dir_entries (Suc (Suc 0)) example_args [] 2 (example_at example_tree 16) =
       Some (Inr (),
         (example_at example_tree 32)
           \<lparr>meta_entries :=
              [example_entry (''A'' @ path_sep @ ''ICON'' @ path_sep @ ''1033'')],
            logged := [(0, EofError)]\<rparr>)
   \<and> process_dir_entries (Suc (Suc 0)) example_args [] (Suc (Suc 0))
        (example_at example_tree 16)
       = process_dir_entries (Suc (Suc 0)) example_args [] (Suc 0)
           ((example_at example_tree 24)\<lparr>logged := [(0, EofError)]\<rparr>)
   \<and> process_dir_entries (Suc (Suc 0)) example_args [] (Suc 0)
        (example_at example_tree 24)
       = process_dir_entries (Suc (Suc 0)) example_args [] 0
           ((example_at example_tree 32)
              \<lparr>meta_entries :=
                 [example_entry (''A'' @ path_sep @ ''ICON'' @ path_sep @ ''1033'')]\<rparr>)
   \<and> process_dir_entries 0 example_args [] 2 (example_at truncated_tree 16) =
       Some (Inl EofError,
         (example_at truncated_tree 24)\<lparr>meta_entries := [example_entry ''CURSOR'']\<rparr>)
   \<and> length (stream_data (example_at truncated_tree 16))
       < stream_pos (example_at truncated_tree 16) + 8 * 2
   \<and> (\<exists>p. process_dir_entries 0 example_args [] (Suc 0) (example_at truncated_tree 24) =
          Some (Inl EofError, (example_at truncated_tree 24)\<lparr>stream_pos := p\<rparr>))
   \<and> (\<exists>s''. process_dir (Suc 0) example_args 16 [] (example_at truncated_tree 0) =
          Some (Inl EofError, s''))"
proof -
  note iso = process_dir_entries_fault_isolation
  have len: "stream_pos (example_at example_tree 16) + 8 * 2
     \<le> length (stream_data (example_at example_tree 16))"
    by (simp add: example_at_def example_tree_def)
  have "Inr () = (Inr () :: error + unit)"
    using iso [THEN conjunct1, rule_format, OF conjI [OF len example_tree_entries]] by simp
  have turn0: "process_dir_entries (Suc (Suc 0)) example_args [] (Suc (Suc 0))
        (example_at example_tree 16)
       = process_dir_entries (Suc (Suc 0)) example_args [] (Suc 0)
           ((example_at example_tree 24)\<lparr>logged := [(0, EofError)]\<rparr>)"
    using iso [THEN conjunct2, THEN conjunct2, THEN conjunct1, rule_format,
        OF conjI [OF example_tree_entry0 example_tree_body0], of "Suc 0"]
    by (simp add: example_at_def example_args_def)
  have turn1: "process_dir_entries (Suc (Suc 0)) example_args [] (Suc 0)
        (example_at example_tree 24)
       = process_dir_entries (Suc (Suc 0)) example_args [] 0
           ((example_at example_tree 32)
              \<lparr>meta_entries :=
                 [example_entry (''A'' @ path_sep @ ''ICON'' @ path_sep @ ''1033'')]\<rparr>)"
    using iso [THEN conjunct2, THEN conjunct2, THEN conjunct2, THEN conjunct1, rule_format,
        OF conjI [OF example_tree_entry1 example_tree_body1], of 0]
    by (simp add: example_at_def)
  have short: "length (stream_data (example_at truncated_tree 16))
       < stream_pos (example_at truncated_tree 16) + 8 * 2"
    using iso [THEN conjunct2, THEN conjunct1, rule_format, OF truncated_tree_entries]
    by simp
  have rec: "length (stream_data (example_at truncated_tree 24))
       < stream_pos (example_at truncated_tree 24) + 8"
    by (simp add: example_at_def truncated_tree_def)
  have abort: "\<exists>p. process_dir_entries 0 example_args [] (Suc 0) (example_at truncated_tree 24) =
          Some (Inl EofError, (example_at truncated_tree 24)\<lparr>stream_pos := p\<rparr>)"
    using iso [THEN conjunct2, THEN conjunct2, THEN conjunct2, THEN conjunct2,
        THEN conjunct1, rule_format, OF rec] .
  have hdr: "length (stream_data (example_at truncated_tree 0)) < base_offset example_args + 16 + 16"
    by (simp add: example_at_def truncated_tree_def example_args_def)
  have abort2: "\<exists>s''. process_dir (Suc 0) example_args 16 [] (example_at truncated_tree 0) =
          Some (Inl EofError, s'')"
    using iso [THEN conjunct2, THEN conjunct2, THEN conjunct2, THEN conjunct2,
        THEN conjunct2, rule_format, OF hdr] .
  from len example_tree_entries turn0 turn1 truncated_tree_entries short abort abort2
  show ?thesis by (intro conjI)
qed


section \<open>The headers of a file\<close>

lemma read_ImageFileHeader_ok:
  assumes "stream_pos s + 20 \<le> length (stream_data s)"
  shows "\<exists>h. read_ImageFileHeader s = (Inr h, s\<lparr>stream_pos := stream_pos s + 20\<rparr>)
     \<and> number_of_sections h = le_word (take 2 (drop (stream_pos s + 2) (stream_data s)))"
  using assms
  by (simp add: read_ImageFileHeader_def io_bind_def io_return_def read_le_u16_def
      read_le_u32_def read_def add.commute)

lemma read_ImageNtHeader_32:
  assumes len: "stream_pos s + 120 \<le> length (stream_data s)"
    and magic: "(le_word (take 2 (drop (stream_pos s + 24) (stream_data s))) :: u16) \<noteq> 0x20B"
  shows "\<exists>h. read_ImageNtHeader s = (Inr h, s\<lparr>stream_pos := stream_pos s + 120\<rparr>)
     \<and> number_of_sections (file_header h) =
         le_word (take 2 (drop (stream_pos s + 6) (stream_data s)))
     \<and> number_of_rva_and_sizes (optional_header h) =
         le_word (take 4 (drop (stream_pos s + 116) (stream_data s)))
     \<and> opt_magic (optional_header h) =
         le_word (take 2 (drop (stream_pos s + 24) (stream_data s)))
     \<and> opt_section_alignment (optional_header h) =
         le_word (take 4 (drop (stream_pos s + 56) (stream_data s)))
     \<and> opt_file_alignment (optional_header h) =
         le_word (take 4 (drop (stream_pos s + 60) (stream_data s)))"
proof -
  let ?s1 = "s\<lparr>stream_pos := stream_pos s + 4\<rparr>"
  let ?s2 = "s\<lparr>stream_pos := stream_pos s + 24\<rparr>"
  have sig: "read_le_u32 s = (Inr (le_word (take 4 (drop (stream_pos s) (stream_data s)))), ?s1)"
    using len by (simp add: read_le_u32_def io_bind_def io_return_def read_def)
  have "stream_pos ?s1 + 20 \<le> length (stream_data ?s1)" using len by simp
  from read_ImageFileHeader_ok [OF this] obtain fh where
    fh: "read_ImageFileHeader ?s1 = (Inr fh, ?s2)"
      "number_of_sections fh = le_word (take 2 (drop (stream_pos s + 6) (stream_data s)))"
    by (auto simp: add.commute add.left_commute)
  have "stream_pos ?s2 + 96 \<le> length (stream_data ?s2)" using len by simp
  moreover have "(le_word (take 2 (drop (stream_pos ?s2) (stream_data ?s2))) :: u16) \<noteq> 0x20B"
    using magic by simp
  ultimately obtain oh where
    oh: "read_ImageOptionalHeader ?s2 = (Inr oh, s\<lparr>stream_pos := stream_pos s + 120\<rparr>)"
      "number_of_rva_and_sizes oh = le_word (take 4 (drop (stream_pos s + 116) (stream_data s)))"
      "opt_magic oh = le_word (take 2 (drop (stream_pos s + 24) (stream_data s)))"
      "opt_section_alignment oh = le_word (take 4 (drop (stream_pos s + 56) (stream_data s)))"
      "opt_file_alignment oh = le_word (take 4 (drop (stream_pos s + 60) (stream_data s)))"
    using read_ImageOptionalHeader_32 [of ?s2] by (auto simp: add.commute add.left_commute)
  have "read_ImageNtHeader s =
      (Inr \<lparr>signature = le_word (take 4 (drop (stream_pos s) (stream_data s))),
            file_header = fh, optional_header = oh\<rparr>,
       s\<lparr>stream_pos := stream_pos s + 120\<rparr>)"
    using sig fh(1) oh(1) by (simp add: read_ImageNtHeader_def io_bind_def io_return_def)
  with fh(2) oh(2,3,4,5) show ?thesis by simp
qed

lemma read_many_length: "read_many n m s = (Inr xs, s') \<Longrightarrow> length xs = n"
proof (induction n arbitrary: s xs s')
  case 0
  then show ?case by (simp add: io_return_def)
next
  case (Suc n)
  from Suc.prems obtain x s1 where x: "m s = (Inr x, s1)"
    by (cases "m s" rule: prod.exhaust; cases "fst (m s)")
       (auto simp: io_bind_def split: sum.splits)
  with Suc.prems obtain ys s2 where ys: "read_many n m s1 = (Inr ys, s2)" "xs = x # ys"
    by (cases "read_many n m s1" rule: prod.exhaust; cases "fst (read_many n m s1)")
       (auto simp: io_bind_def io_return_def split: sum.splits)
  from Suc.IH [OF ys(1)] ys(2) show ?case by simp
qed

lemma read_headers_data_dirs:
  fixes s :: "'z istream_scheme"
  assumes "read_headers s = (Inr (nt_header, data_dirs, secs), s1)"
  shows "length data_dirs = unat (number_of_rva_and_sizes (optional_header nt_header))"
proof -
  from assms obtain s2 s3 :: "'z istream_scheme" where
    "read_many (unat (number_of_rva_and_sizes (optional_header nt_header)))
       read_ImageDataDir s2 = (Inr data_dirs, s3)"
    by (auto simp: read_headers_def io_bind_def io_return_def split: sum.splits prod.splits)
  then show ?thesis by (rule read_many_length)
qed

lemma smallest_file_headers:
  "\<exists>nt_header. read_headers (example_state smallest_file) =
       (Inr (nt_header, [], []), example_at smallest_file 120)
     \<and> number_of_rva_and_sizes (optional_header nt_header) = 0"
proof -
  let ?s = "example_state smallest_file"
  have len: "length smallest_file = 120" by (simp add: smallest_file_def)
  have "stream_pos ?s + 64 \<le> length (stream_data ?s)"
    by (simp add: example_state_def len)
  from read_DosHeader_ok [OF this] obtain dh where
    dh: "read_DosHeader ?s = (Inr dh, ?s\<lparr>stream_pos := 64\<rparr>)" "e_lfanew dh = 0"
    by (auto simp: example_state_def smallest_file_def le_word_replicate_0)
  have sk: "seek (unat (e_lfanew dh)) (?s\<lparr>stream_pos := 64\<rparr>) = (Inr (), ?s)"
    by (simp add: dh(2) seek_def example_state_def)
  have "stream_pos ?s + 120 \<le> length (stream_data ?s)"
    by (simp add: example_state_def len)
  moreover have "(le_word (take 2 (drop (stream_pos ?s + 24) (stream_data ?s))) :: u16) \<noteq> 0x20B"
    by (simp add: example_state_def smallest_file_def le_word_replicate_0)
  ultimately obtain nt where
    nt: "read_ImageNtHeader ?s = (Inr nt, ?s\<lparr>stream_pos := 120\<rparr>)"
      "number_of_sections (file_header nt) = 0"
      "number_of_rva_and_sizes (optional_header nt) = 0"
    using read_ImageNtHeader_32 [of ?s]
    by (auto simp: example_state_def smallest_file_def le_word_replicate_0)
  have "read_headers ?s = (Inr (nt, [], []), example_at smallest_file 120)"
    using dh(1) sk nt
    by (simp add: read_headers_def io_bind_def io_return_def example_state_def example_at_def)
  with nt(3) show ?thesis by blast
qed

text \<open>
  C10. \<open>read_meta_impl\<close> reads as many data directories as the optional header
  announces and then indexes the table at position 2 with no check of its length. For
  every input whose headers decode and announce fewer than 3 data directories, the table
  has fewer than 3 elements and the access is out of bounds: the result is the
  undefined behaviour of the unchecked access, not an error of the decoder. With 3 or
  more announced the access is within the table.
\<close>

theorem read_meta_impl_data_dirs_unchecked:
  "(read_headers s = (Inr (nt_header, data_dirs, secs), s1)
      \<and> number_of_rva_and_sizes (optional_header nt_header) < 3 \<longrightarrow>
      length data_dirs = unat (number_of_rva_and_sizes (optional_header nt_header))
      \<and> \<not> 2 < length data_dirs
      \<and> read_meta_impl fuel s = Some (UndefinedBehaviour, s1))
   \<and> (read_headers s = (Inr (nt_header, data_dirs, secs), s1)
      \<and> 3 \<le> number_of_rva_and_sizes (optional_header nt_header) \<longrightarrow>
      2 < length data_dirs
      \<and> (\<forall>s'. read_meta_impl fuel s \<noteq> Some (UndefinedBehaviour, s')))"
proof (intro conjI impI)
  assume a: "read_headers s = (Inr (nt_header, data_dirs, secs), s1)
      \<and> number_of_rva_and_sizes (optional_header nt_header) < 3"
  then have h: "read_headers s = (Inr (nt_header, data_dirs, secs), s1)" by simp
  from read_headers_data_dirs [OF h]
  show len: "length data_dirs = unat (number_of_rva_and_sizes (optional_header nt_header))" .
  from a have "unat (number_of_rva_and_sizes (optional_header nt_header)) < 3"
    by (simp add: word_less_nat_alt)
  with len show short: "\<not> 2 < length data_dirs" by simp
  from h short show "read_meta_impl fuel s = Some (UndefinedBehaviour, s1)"
    by (simp add: read_meta_impl_def Let_def)
next
  assume a: "read_headers s = (Inr (nt_header, data_dirs, secs), s1)
      \<and> 3 \<le> number_of_rva_and_sizes (optional_header nt_header)"
  then have h: "read_headers s = (Inr (nt_header, data_dirs, secs), s1)" by simp
  from a have "3 \<le> unat (number_of_rva_and_sizes (optional_header nt_header))"
    by (simp add: word_le_nat_alt)
  with read_headers_data_dirs [OF h] show long: "2 < length data_dirs" by simp
  from h long show "\<forall>s'. read_meta_impl fuel s \<noteq> Some (UndefinedBehaviour, s')"
    by (auto simp: read_meta_impl_def Let_def split: sum.splits option.splits prod.splits)
qed

lemma consumes_ImageDataDir: "consumes 8 read_ImageDataDir"
proof -
  have "consumes (4 + 4) read_ImageDataDir"
    unfolding read_ImageDataDir_def by (intro consumes_intros)
  then show ?thesis by simp
qed

lemma read_many_ok:
  assumes m: "consumes k m"
  shows "stream_pos s + n * k \<le> length (stream_data s) \<Longrightarrow>
    \<exists>xs. read_many n m s = (Inr xs, s\<lparr>stream_pos := stream_pos s + n * k\<rparr>)"
proof (induction n arbitrary: s)
  case 0
  then show ?case by (simp add: io_return_def)
next
  case (Suc n)
  from Suc.prems have "stream_pos s + k \<le> length (stream_data s)" by simp
  from consumesD_ok [OF m this] obtain x where
    x: "m s = (Inr x, s\<lparr>stream_pos := stream_pos s + k\<rparr>)" by blast
  let ?s1 = "s\<lparr>stream_pos := stream_pos s + k\<rparr>"
  have "stream_pos ?s1 + n * k \<le> length (stream_data ?s1)" using Suc.prems by simp
  from Suc.IH [OF this] obtain xs where
    "read_many n m ?s1 = (Inr xs, ?s1\<lparr>stream_pos := stream_pos ?s1 + n * k\<rparr>)" by blast
  with x have "read_many (Suc n) m s = (Inr (x # xs), s\<lparr>stream_pos := stream_pos s + Suc n * k\<rparr>)"
    by (simp add: io_bind_def io_return_def add.assoc)
  then show ?case by blast
qed

lemma three_dirs_file_headers:
  "\<exists>nt_header data_dirs. read_headers (example_state three_dirs_file) =
       (Inr (nt_header, data_dirs, []), example_at three_dirs_file 144)
     \<and> number_of_rva_and_sizes (optional_header nt_header) = 3"
proof -
  let ?s = "example_state three_dirs_file"
  have len: "length three_dirs_file = 144" by (simp add: three_dirs_file_def)
  have "stream_pos ?s + 64 \<le> length (stream_data ?s)"
    by (simp add: example_state_def len)
  from read_DosHeader_ok [OF this] obtain dh where
    dh: "read_DosHeader ?s = (Inr dh, ?s\<lparr>stream_pos := 64\<rparr>)" "e_lfanew dh = 0"
    by (auto simp: example_state_def three_dirs_file_def le_word_replicate_0)
  have sk: "seek (unat (e_lfanew dh)) (?s\<lparr>stream_pos := 64\<rparr>) = (Inr (), ?s)"
    by (simp add: dh(2) seek_def example_state_def)
  have "stream_pos ?s + 120 \<le> length (stream_data ?s)"
    by (simp add: example_state_def len)
  moreover have "(le_word (take 2 (drop (stream_pos ?s + 24) (stream_data ?s))) :: u16) \<noteq> 0x20B"
    by (simp add: example_state_def three_dirs_file_def le_word_replicate_0)
  ultimately obtain nt where
    nt: "read_ImageNtHeader ?s = (Inr nt, ?s\<lparr>stream_pos := 120\<rparr>)"
      "number_of_sections (file_header nt) = 0"
      "number_of_rva_and_sizes (optional_header nt) = 3"
    using read_ImageNtHeader_32 [of ?s]
    by (auto simp: example_state_def three_dirs_file_def le_word_replicate_0)
  let ?s1 = "?s\<lparr>stream_pos := 120\<rparr>"
  have "stream_pos ?s1 + 3 * 8 \<le> length (stream_data ?s1)"
    by (simp add: example_state_def len)
  from read_many_ok [OF consumes_ImageDataDir this] obtain dds where
    dds: "read_many 3 read_ImageDataDir ?s1 = (Inr dds, ?s1\<lparr>stream_pos := stream_pos ?s1 + 3 * 8\<rparr>)"
    by blast
  have "read_headers ?s = (Inr (nt, dds, []), example_at three_dirs_file 144)"
    using dh(1) sk nt dds
    by (simp add: read_headers_def io_bind_def io_return_def example_state_def example_at_def)
  with nt(3) show ?thesis by blast
qed


section \<open>Termination of the crawl\<close>










section \<open>The paths of the entries\<close>












section \<open>A whole file\<close>

lemma io_bind_step: "m s = (Inr x, s1) \<Longrightarrow> f x s1 = y \<Longrightarrow> io_bind m f s = y"
  by (simp add: io_bind_def)

lemma read_many_1:
  "m s = (Inr x, s1) \<Longrightarrow> read_many (Suc 0) m s = (Inr [x], s1)"
  by (simp add: io_bind_def io_return_def)

lemma read_many_3:
  "m s = (Inr x1, s1) \<Longrightarrow> m s1 = (Inr x2, s2) \<Longrightarrow> m s2 = (Inr x3, s3) \<Longrightarrow>
   read_many (Suc (Suc (Suc 0))) m s = (Inr [x1, x2, x3], s3)"
  by (simp add: io_bind_def io_return_def)

lemma example_file_length: "length (example_file m0 m1 k tree) = 248 + length tree"
  by (simp add: example_file_def)

lemma example_file_dirs_read:
  "read_many (Suc (Suc (Suc 0))) read_ImageDataDir
     (example_at (example_file m0 m1 k tree) 184) =
     (Inr example_file_dirs, example_at (example_file m0 m1 k tree) 208)"
proof -
  have "read_ImageDataDir (example_at (example_file m0 m1 k tree) 184) =
     (Inr \<lparr>dir_virtual_address = 0, dir_size = 0\<rparr>,
      example_at (example_file m0 m1 k tree) 192)"
    by (simp add: read_ImageDataDir_def io_bind_def io_return_def
        read_le_u32_def read_def example_at_def example_file_def)
  moreover have "read_ImageDataDir (example_at (example_file m0 m1 k tree) 192) =
     (Inr \<lparr>dir_virtual_address = 0, dir_size = 0\<rparr>,
      example_at (example_file m0 m1 k tree) 200)"
    by (simp add: read_ImageDataDir_def io_bind_def io_return_def
        read_le_u32_def read_def example_at_def example_file_def)
  moreover have "read_ImageDataDir (example_at (example_file m0 m1 k tree) 200) =
     (Inr \<lparr>dir_virtual_address = 0x2000, dir_size = 0x100\<rparr>,
      example_at (example_file m0 m1 k tree) 208)"
    by (simp add: read_ImageDataDir_def io_bind_def io_return_def
        read_le_u32_def read_def example_at_def example_file_def)
  ultimately show ?thesis
    unfolding example_file_dirs_def by (rule read_many_3)
qed

lemma example_file_section_read:
  "read_many (Suc 0) read_ImageSectionHeader (example_at (example_file m0 m1 k tree) 208) =
     (Inr [example_file_section], example_at (example_file m0 m1 k tree) 248)"
proof -
  have "read_ImageSectionHeader (example_at (example_file m0 m1 k tree) 208) =
     (Inr example_file_section, example_at (example_file m0 m1 k tree) 248)"
    by (simp add: read_ImageSectionHeader_def io_bind_def io_return_def
        read_le_u16_def read_le_u32_def read_def str_def example_at_def example_file_def
        example_file_section_def)
  then show ?thesis by (rule read_many_1)
qed

lemma example_file_headers:
  assumes magic: "(le_word [m0, m1] :: u16) \<noteq> 0x20B"
  shows "\<exists>nt_header. read_headers (example_state (example_file m0 m1 3 tree)) =
       (Inr (nt_header, example_file_dirs, [example_file_section]),
        example_at (example_file m0 m1 3 tree) 248)
     \<and> opt_magic (optional_header nt_header) = le_word [m0, m1]
     \<and> opt_file_alignment (optional_header nt_header) = 4
     \<and> opt_section_alignment (optional_header nt_header) = 4"
proof -
  let ?f = "example_file m0 m1 3 tree"
  let ?s = "example_state ?f"
  have "stream_pos ?s + 64 \<le> length (stream_data ?s)"
    by (simp add: example_state_def example_file_length)
  from read_DosHeader_ok [OF this] obtain dh where
    dh: "read_DosHeader ?s = (Inr dh, ?s\<lparr>stream_pos := 64\<rparr>)" "e_lfanew dh = 64"
    by (auto simp: example_state_def example_file_def)
  let ?s1 = "example_at ?f 64"
  have sk: "seek (unat (e_lfanew dh)) (?s\<lparr>stream_pos := 64\<rparr>) = (Inr (), ?s1)"
    by (simp add: dh(2) seek_def example_state_def example_at_def example_file_length)
  have "stream_pos ?s1 + 120 \<le> length (stream_data ?s1)"
    by (simp add: example_at_def example_file_length)
  moreover have "(le_word (take 2 (drop (stream_pos ?s1 + 24) (stream_data ?s1))) :: u16)
      \<noteq> 0x20B"
    using magic by (simp add: example_at_def example_file_def)
  ultimately obtain nt where
    nt: "read_ImageNtHeader ?s1 = (Inr nt, ?s1\<lparr>stream_pos := stream_pos ?s1 + 120\<rparr>)"
      "number_of_sections (file_header nt) =
         le_word (take 2 (drop (stream_pos ?s1 + 6) (stream_data ?s1)))"
      "number_of_rva_and_sizes (optional_header nt) =
         le_word (take 4 (drop (stream_pos ?s1 + 116) (stream_data ?s1)))"
      "opt_magic (optional_header nt) =
         le_word (take 2 (drop (stream_pos ?s1 + 24) (stream_data ?s1)))"
      "opt_section_alignment (optional_header nt) =
         le_word (take 4 (drop (stream_pos ?s1 + 56) (stream_data ?s1)))"
      "opt_file_alignment (optional_header nt) =
         le_word (take 4 (drop (stream_pos ?s1 + 60) (stream_data ?s1)))"
    using read_ImageNtHeader_32 [of ?s1] by blast
  have n1: "read_ImageNtHeader ?s1 = (Inr nt, example_at ?f 184)"
    using nt(1) by (simp add: example_at_def)
  have n2: "number_of_sections (file_header nt) = 1"
    using nt(2) by (simp add: example_at_def example_file_def)
  have n3: "number_of_rva_and_sizes (optional_header nt) = 3"
    using nt(3) by (simp add: example_at_def example_file_def)
  have n4: "opt_magic (optional_header nt) = le_word [m0, m1]"
    using nt(4) by (simp add: example_at_def example_file_def)
  have n5: "opt_section_alignment (optional_header nt) = 4"
    using nt(5) by (simp add: example_at_def example_file_def)
  have n6: "opt_file_alignment (optional_header nt) = 4"
    using nt(6) by (simp add: example_at_def example_file_def)
  have c3: "unat (number_of_rva_and_sizes (optional_header nt)) = Suc (Suc (Suc 0))"
    by (simp add: n3)
  have c1: "unat (number_of_sections (file_header nt)) = Suc 0"
    by (simp add: n2)
  have "read_headers ?s =
       (Inr (nt, example_file_dirs, [example_file_section]), example_at ?f 248)"
    unfolding read_headers_def
    apply (rule io_bind_step, rule dh(1))
    apply (rule io_bind_step, rule sk)
    apply (rule io_bind_step, rule n1)
    apply (subst c3, rule io_bind_step, rule example_file_dirs_read)
    apply (subst c1, rule io_bind_step, rule example_file_section_read)
    apply (simp add: io_return_def)
    done
  with n4 n5 n6 show ?thesis by blast
qed

lemma example_file_meta:
  assumes magic: "(le_word [m0, m1] :: u16) \<noteq> 0x20B"
  shows "read_meta_impl fuel (example_state (example_file m0 m1 3 tree)) =
     (case crawl fuel example_file_args (example_at (example_file m0 m1 3 tree) 248) of
        None \<Rightarrow> None
      | Some (Inl e, s2) \<Rightarrow> Some (Throws e, s2)
      | Some (Inr u, s2) \<Rightarrow> Some (Meta (meta_entries s2), s2))"
proof -
  from example_file_headers [OF magic, of tree] obtain nt where
    nt: "read_headers (example_state (example_file m0 m1 3 tree)) =
       (Inr (nt, example_file_dirs, [example_file_section]),
        example_at (example_file m0 m1 3 tree) 248)"
      "opt_file_alignment (optional_header nt) = 4"
      "opt_section_alignment (optional_header nt) = 4"
    by blast
  have base: "rva_to_offset
      \<lparr>file_alignment = 4, section_alignment = 4, sections = [example_file_section]\<rparr>
      0x2000 = Inr 248"
    by (simp add: rva_to_offset_def section_for_rva_def adjust_file_alignment_def
        adjust_section_alignment_def example_file_section_def)
  have st: "(example_at (example_file m0 m1 3 tree) 248)\<lparr>meta_entries := []\<rparr>
      = example_at (example_file m0 m1 3 tree) 248"
    by (simp add: example_at_def)
  show ?thesis
    using nt base
    by (simp add: read_meta_impl_def Let_def example_file_dirs_def example_file_args_def st
        split: option.splits prod.splits sum.splits)
qed

lemmas file_crawl_eval =
  crawl_def process_dir_Suc process_dir_entries_Suc process_dir_entries_numeral
  entry_body_def peek_def tell_def Let_def
  read_ImageResourceDir_def read_ImageResourceDirEntry_def read_ImageResourceDataEntry_def
  read_entry_name_def process_entry_def child_path_def resource_type_name_def
  io_bind_def io_return_def io_throw_def seek_def skip_def read_def read_le_u16_def
  read_le_u32_def utf16_to_utf8_def utf8_encode_def str_def path_sep_def
  rva_to_offset_def section_for_rva_def adjust_file_alignment_def
  adjust_section_alignment_def example_file_args_def example_file_section_def
  example_at_def example_file_def

lemma example_file_crawl:
  "crawl (Suc (Suc (Suc fuel))) example_file_args
     (example_at (example_file m0 m1 3 example_tree) 248) =
   Some (Inr (),
     \<lparr>stream_data = example_file m0 m1 3 example_tree, stream_pos = 280,
      meta_entries =
        [\<lparr>archive_path = ''A'' @ path_sep @ ''ICON'' @ path_sep @ ''1033'',
          archive_offset = 264, archive_size = 0x20\<rparr>],
      logged = [(248, EofError)]\<rparr>)"
  by (simp add: file_crawl_eval example_tree_def format_d_1033)

lemma truncated_file_crawl:
  "crawl (Suc fuel) example_file_args
     (example_at (example_file m0 m1 3 truncated_tree) 248) =
   Some (Inl EofError,
     \<lparr>stream_data = example_file m0 m1 3 truncated_tree, stream_pos = 272,
      meta_entries =
        [\<lparr>archive_path = ''CURSOR'', archive_offset = 264, archive_size = 0x20\<rparr>],
      logged = []\<rparr>)"
  by (simp add: file_crawl_eval truncated_tree_def)

lemma example_file_enumerates:
  assumes "(le_word [m0, m1] :: u16) \<noteq> 0x20B"
  shows "read_meta_impl (Suc (Suc (Suc fuel))) (example_state (example_file m0 m1 3 example_tree)) =
     Some (Meta [\<lparr>archive_path = ''A'' @ path_sep @ ''ICON'' @ path_sep @ ''1033'',
                  archive_offset = 264, archive_size = 0x20\<rparr>],
       \<lparr>stream_data = example_file m0 m1 3 example_tree, stream_pos = 280,
        meta_entries =
          [\<lparr>archive_path = ''A'' @ path_sep @ ''ICON'' @ path_sep @ ''1033'',
            archive_offset = 264, archive_size = 0x20\<rparr>],
        logged = [(248, EofError)]\<rparr>)"
  by (simp add: example_file_meta [OF assms] example_file_crawl)

lemma truncated_file_fails:
  assumes "(le_word [m0, m1] :: u16) \<noteq> 0x20B"
  shows "read_meta_impl (Suc fuel) (example_state (example_file m0 m1 3 truncated_tree)) =
     Some (Throws EofError,
       \<lparr>stream_data = example_file m0 m1 3 truncated_tree, stream_pos = 272,
        meta_entries =
          [\<lparr>archive_path = ''CURSOR'', archive_offset = 264, archive_size = 0x20\<rparr>],
        logged = []\<rparr>)"
  by (simp add: example_file_meta [OF assms] truncated_file_crawl)

lemma consumes_ImageSectionHeader: "consumes 40 read_ImageSectionHeader"
proof -
  have "consumes (8 + (4 + (4 + (4 + (4 + (4 + (4 + (2 + (2 + 4)))))))))
      read_ImageSectionHeader"
    unfolding read_ImageSectionHeader_def by (intro consumes_intros)
  then show ?thesis by simp
qed

lemma two_dirs_file_headers:
  assumes magic: "(le_word [m0, m1] :: u16) \<noteq> 0x20B"
  shows "\<exists>nt_header data_dirs secs. read_headers (example_state (example_file m0 m1 2 tree)) =
       (Inr (nt_header, data_dirs, secs), example_at (example_file m0 m1 2 tree) 240)
     \<and> number_of_rva_and_sizes (optional_header nt_header) = 2"
proof -
  let ?f = "example_file m0 m1 2 tree"
  let ?s = "example_state ?f"
  have "stream_pos ?s + 64 \<le> length (stream_data ?s)"
    by (simp add: example_state_def example_file_length)
  from read_DosHeader_ok [OF this] obtain dh where
    dh: "read_DosHeader ?s = (Inr dh, ?s\<lparr>stream_pos := 64\<rparr>)" "e_lfanew dh = 64"
    by (auto simp: example_state_def example_file_def)
  let ?s1 = "example_at ?f 64"
  have sk: "seek (unat (e_lfanew dh)) (?s\<lparr>stream_pos := 64\<rparr>) = (Inr (), ?s1)"
    by (simp add: dh(2) seek_def example_state_def example_at_def example_file_length)
  have "stream_pos ?s1 + 120 \<le> length (stream_data ?s1)"
    by (simp add: example_at_def example_file_length)
  moreover have "(le_word (take 2 (drop (stream_pos ?s1 + 24) (stream_data ?s1))) :: u16)
      \<noteq> 0x20B"
    using magic by (simp add: example_at_def example_file_def)
  ultimately obtain nt where
    nt: "read_ImageNtHeader ?s1 = (Inr nt, ?s1\<lparr>stream_pos := stream_pos ?s1 + 120\<rparr>)"
      "number_of_sections (file_header nt) =
         le_word (take 2 (drop (stream_pos ?s1 + 6) (stream_data ?s1)))"
      "number_of_rva_and_sizes (optional_header nt) =
         le_word (take 4 (drop (stream_pos ?s1 + 116) (stream_data ?s1)))"
    using read_ImageNtHeader_32 [of ?s1] by blast
  have n1: "read_ImageNtHeader ?s1 = (Inr nt, example_at ?f 184)"
    using nt(1) by (simp add: example_at_def)
  have n2: "number_of_sections (file_header nt) = 1"
    using nt(2) by (simp add: example_at_def example_file_def)
  have n3: "number_of_rva_and_sizes (optional_header nt) = 2"
    using nt(3) by (simp add: example_at_def example_file_def)
  have c2: "unat (number_of_rva_and_sizes (optional_header nt)) = 2" by (simp add: n3)
  have c1: "unat (number_of_sections (file_header nt)) = 1" by (simp add: n2)
  have "stream_pos (example_at ?f 184) + 2 * 8 \<le> length (stream_data (example_at ?f 184))"
    by (simp add: example_at_def example_file_length)
  from read_many_ok [OF consumes_ImageDataDir this] obtain dds where
    dds: "read_many 2 read_ImageDataDir (example_at ?f 184) = (Inr dds, example_at ?f 200)"
    by (auto simp: example_at_def)
  have "stream_pos (example_at ?f 200) + 1 * 40 \<le> length (stream_data (example_at ?f 200))"
    by (simp add: example_at_def example_file_length)
  from read_many_ok [OF consumes_ImageSectionHeader this] obtain secs where
    secs: "read_many 1 read_ImageSectionHeader (example_at ?f 200) =
        (Inr secs, example_at ?f 240)"
    by (auto simp: example_at_def)
  have "read_headers ?s = (Inr (nt, dds, secs), example_at ?f 240)"
    unfolding read_headers_def
    apply (rule io_bind_step, rule dh(1))
    apply (rule io_bind_step, rule sk)
    apply (rule io_bind_step, rule n1)
    apply (subst c2, rule io_bind_step, rule dds)
    apply (subst c1, rule io_bind_step, rule secs)
    apply (simp add: io_return_def)
    done
  with n3 show ?thesis by blast
qed

theorem read_meta_impl_data_dirs_unchecked_witness:
  "(\<exists>nt_header data_dirs secs. read_headers (example_state (example_file 0x0B 0x01 2 example_tree)) =
        (Inr (nt_header, data_dirs, secs), example_at (example_file 0x0B 0x01 2 example_tree) 240)
      \<and> number_of_rva_and_sizes (optional_header nt_header) = 2)
   \<and> read_meta_impl (Suc (Suc (Suc 0))) (example_state (example_file 0x0B 0x01 2 example_tree)) =
       Some (UndefinedBehaviour, example_at (example_file 0x0B 0x01 2 example_tree) 240)
   \<and> (\<exists>nt_header. read_headers (example_state smallest_file) =
        (Inr (nt_header, [], []), example_at smallest_file 120)
      \<and> number_of_rva_and_sizes (optional_header nt_header) = 0)
   \<and> read_meta_impl (Suc 0) (example_state smallest_file) =
       Some (UndefinedBehaviour, example_at smallest_file 120)
   \<and> (\<exists>nt_header. read_headers (example_state (example_file 0x0B 0x01 3 example_tree)) =
        (Inr (nt_header, example_file_dirs, [example_file_section]),
         example_at (example_file 0x0B 0x01 3 example_tree) 248)
      \<and> number_of_rva_and_sizes (optional_header nt_header) = 3)
   \<and> 2 < length example_file_dirs
   \<and> (\<forall>s'. read_meta_impl (Suc (Suc (Suc 0)))
               (example_state (example_file 0x0B 0x01 3 example_tree))
          \<noteq> Some (UndefinedBehaviour, s'))"
proof -
  have m: "(le_word [0x0B, 0x01] :: u16) \<noteq> 0x20B" by simp
  from two_dirs_file_headers [OF m, of example_tree] obtain nt2 dds2 secs2 where
    nt2: "read_headers (example_state (example_file 0x0B 0x01 2 example_tree)) =
        (Inr (nt2, dds2, secs2), example_at (example_file 0x0B 0x01 2 example_tree) 240)"
      "number_of_rva_and_sizes (optional_header nt2) = 2"
    by blast
  then have a2: "read_headers (example_state (example_file 0x0B 0x01 2 example_tree)) =
        (Inr (nt2, dds2, secs2), example_at (example_file 0x0B 0x01 2 example_tree) 240)
      \<and> number_of_rva_and_sizes (optional_header nt2) < 3" by simp
  from read_meta_impl_data_dirs_unchecked [THEN conjunct1, rule_format, OF a2]
  have ub2: "read_meta_impl (Suc (Suc (Suc 0)))
        (example_state (example_file 0x0B 0x01 2 example_tree)) =
       Some (UndefinedBehaviour, example_at (example_file 0x0B 0x01 2 example_tree) 240)"
    by simp
  from smallest_file_headers obtain nt where
    nt: "read_headers (example_state smallest_file) =
        (Inr (nt, [], []), example_at smallest_file 120)"
      "number_of_rva_and_sizes (optional_header nt) = 0"
    by blast
  then have a: "read_headers (example_state smallest_file) =
        (Inr (nt, [], []), example_at smallest_file 120)
      \<and> number_of_rva_and_sizes (optional_header nt) < 3" by simp
  from read_meta_impl_data_dirs_unchecked [THEN conjunct1, rule_format, OF a]
  have ub: "read_meta_impl (Suc 0) (example_state smallest_file) =
       Some (UndefinedBehaviour, example_at smallest_file 120)" by simp
  from example_file_headers [OF m, of example_tree] obtain nt3 where
    nt3: "read_headers (example_state (example_file 0x0B 0x01 3 example_tree)) =
       (Inr (nt3, example_file_dirs, [example_file_section]),
        example_at (example_file 0x0B 0x01 3 example_tree) 248)"
    by blast
  have n3: "number_of_rva_and_sizes (optional_header nt3) = 3"
    using read_headers_data_dirs [OF nt3]
    by (simp add: example_file_dirs_def word_unat_eq_iff)
  with nt3 have b: "read_headers (example_state (example_file 0x0B 0x01 3 example_tree)) =
       (Inr (nt3, example_file_dirs, [example_file_section]),
        example_at (example_file 0x0B 0x01 3 example_tree) 248)
      \<and> 3 \<le> number_of_rva_and_sizes (optional_header nt3)" by simp
  from read_meta_impl_data_dirs_unchecked [THEN conjunct2, rule_format, OF b]
  have safe: "2 < length example_file_dirs"
    "\<forall>s'. read_meta_impl (Suc (Suc (Suc 0)))
               (example_state (example_file 0x0B 0x01 3 example_tree))
          \<noteq> Some (UndefinedBehaviour, s')" by blast+
  from nt2 ub2 nt ub nt3 n3 safe show ?thesis by blast
qed

text \<open>
  C2 as the specification words it fails on the code: an optional header whose magic is
  0x1234, neither 0x10B nor 0x20B, is decoded without an error, with the 32-bit
  layout; and the whole enumeration of \<open>example_file\<close> with that magic succeeds and
  returns the entry of the tree.
\<close>

theorem read_ImageOptionalHeader_bad_magic_counterexample:
  "(\<exists>h. read_ImageOptionalHeader (example_optional_header 0x34 0x12) =
          (Inr h, (example_optional_header 0x34 0x12)\<lparr>stream_pos := 96\<rparr>)
      \<and> opt_magic h = 0x1234 \<and> opt_magic h \<noteq> 0x10B \<and> opt_magic h \<noteq> 0x20B
      \<and> size_of_stack_reserve h = 1 \<and> size_of_stack_commit h = 2
      \<and> size_of_heap_reserve h = 3 \<and> size_of_heap_commit h = 4)
   \<and> (\<exists>nt_header. read_headers (example_state (example_file 0x34 0x12 3 example_tree)) =
          (Inr (nt_header, example_file_dirs, [example_file_section]),
           example_at (example_file 0x34 0x12 3 example_tree) 248)
        \<and> opt_magic (optional_header nt_header) = 0x1234)
   \<and> (\<forall>fuel. read_meta_impl (Suc (Suc (Suc fuel)))
                 (example_state (example_file 0x34 0x12 3 example_tree)) =
          Some (Meta [\<lparr>archive_path = ''A'' @ path_sep @ ''ICON'' @ path_sep @ ''1033'',
                       archive_offset = 264, archive_size = 0x20\<rparr>],
            \<lparr>stream_data = example_file 0x34 0x12 3 example_tree, stream_pos = 280,
             meta_entries =
               [\<lparr>archive_path = ''A'' @ path_sep @ ''ICON'' @ path_sep @ ''1033'',
                 archive_offset = 264, archive_size = 0x20\<rparr>],
             logged = [(248, EofError)]\<rparr>))"
proof -
  from read_ImageOptionalHeader_32 [of "example_optional_header 0x34 0x12"]
  obtain h where h: "read_ImageOptionalHeader (example_optional_header 0x34 0x12) =
          (Inr h, (example_optional_header 0x34 0x12)\<lparr>stream_pos := 96\<rparr>)"
      "opt_magic h = 0x1234" "size_of_stack_reserve h = 1" "size_of_stack_commit h = 2"
      "size_of_heap_reserve h = 3" "size_of_heap_commit h = 4"
    by (auto simp: example_optional_header_def le_word_replicate_0)
  then have a: "\<exists>h. read_ImageOptionalHeader (example_optional_header 0x34 0x12) =
          (Inr h, (example_optional_header 0x34 0x12)\<lparr>stream_pos := 96\<rparr>)
      \<and> opt_magic h = 0x1234 \<and> opt_magic h \<noteq> 0x10B \<and> opt_magic h \<noteq> 0x20B
      \<and> size_of_stack_reserve h = 1 \<and> size_of_stack_commit h = 2
      \<and> size_of_heap_reserve h = 3 \<and> size_of_heap_commit h = 4"
    by (intro exI [of _ h]) simp
  have m: "(le_word [0x34, 0x12] :: u16) \<noteq> 0x20B" by simp
  from example_file_headers [OF m, of example_tree]
  have b: "\<exists>nt_header. read_headers (example_state (example_file 0x34 0x12 3 example_tree)) =
          (Inr (nt_header, example_file_dirs, [example_file_section]),
           example_at (example_file 0x34 0x12 3 example_tree) 248)
        \<and> opt_magic (optional_header nt_header) = 0x1234"
    by auto
  from a b example_file_enumerates [OF m] show ?thesis by blast
qed

text \<open>
  C4 as the specification words it fails on the code. In \<open>truncated_tree\<close> the root
  directory announces two entries and the file ends after the first. The first entry is
  a sound leaf and is enumerated; decoding the second entry's record fails, nothing
  catches or logs that failure, and it ends the whole crawl, and with it the
  enumeration of a file that holds this tree, with the error, for every depth the
  crawl is allowed.
\<close>

theorem truncated_directory_aborts_crawl_counterexample:
  "(\<forall>fuel. crawl (Suc fuel) example_args (example_state truncated_tree) =
      Some (Inl EofError,
        \<lparr>stream_data = truncated_tree, stream_pos = 24,
         meta_entries = [example_entry ''CURSOR''], logged = []\<rparr>))
   \<and> (\<forall>fuel. read_meta_impl (Suc fuel)
                 (example_state (example_file 0x0B 0x01 3 truncated_tree)) =
      Some (Throws EofError,
        \<lparr>stream_data = example_file 0x0B 0x01 3 truncated_tree, stream_pos = 272,
         meta_entries =
           [\<lparr>archive_path = ''CURSOR'', archive_offset = 264, archive_size = 0x20\<rparr>],
         logged = []\<rparr>))"
proof -
  have m: "(le_word [0x0B, 0x01] :: u16) \<noteq> 0x20B" by simp
  have "\<forall>fuel. crawl (Suc fuel) example_args (example_state truncated_tree) =
      Some (Inl EofError,
        \<lparr>stream_data = truncated_tree, stream_pos = 24,
         meta_entries = [example_entry ''CURSOR''], logged = []\<rparr>)"
    by (simp add: crawl_eval truncated_tree_def)
  with truncated_file_fails [OF m] show ?thesis by blast
qed

end
